theory Spec2Isabelle
  imports Main "HOL-Library.Sublist"
begin

section \<open>The contacts plugin: a shallow embedding\<close>

text \<open>
  The plugin keeps one note per contact in a folder of the vault. Its logic is a
  frontmatter codec (\<open>createFrontMatter\<close>, \<open>extractFrontMatter\<close>,
  \<open>getContactFromFile\<close>), a repository over the vault (\<open>getAllContacts\<close>,
  \<open>createContact\<close>, \<open>updateContact\<close>) and a date function
  (\<open>calculateNextContact\<close>) used by the edit form. Each is translated from the
  TypeScript source; what the source leaves to the JavaScript runtime or to the host
  application (string primitives, \<open>Date\<close>, the vault) is modelled beside it and marked
  as such.
\<close>

subsection \<open>JavaScript strings\<close>

text \<open>
  Strings are lists of code units; \<open>char\<close> covers the code units below 256, which holds
  every character the codec treats specially. \<open>String.prototype.trim\<close> removes white
  space and line terminators: TAB, LF, VT, FF, CR, SP and NBSP in this range.
\<close>

abbreviation LF :: char where
  "LF \<equiv> CHR 0x0A"

definition isWhiteSpace :: "char \<Rightarrow> bool" where
  "isWhiteSpace c = (c = CHR 0x09 \<or> c = LF \<or> c = CHR 0x0B \<or> c = CHR 0x0C \<or> c = CHR 0x0D
     \<or> c = CHR '' '' \<or> c = CHR 0xA0)"

definition trim :: "string \<Rightarrow> string" where
  "trim s = rev (dropWhile isWhiteSpace (rev (dropWhile isWhiteSpace s)))"

text \<open>\<open>s.split(sep)\<close> for a one-character separator: never the empty array.\<close>

fun split_js :: "char \<Rightarrow> string \<Rightarrow> string list" where
  "split_js sep [] = [[]]"
| "split_js sep (c # cs) =
     (if c = sep then [] # split_js sep cs
      else (case split_js sep cs of [] \<Rightarrow> [[c]] | p # ps \<Rightarrow> (c # p) # ps))"

text \<open>\<open>xs.join(sep)\<close>.\<close>

fun join_js :: "string \<Rightarrow> string list \<Rightarrow> string" where
  "join_js sep [] = []"
| "join_js sep [x] = x"
| "join_js sep (x # y # ys) = x @ sep @ join_js sep (y # ys)"

text \<open>
  A value that may be \<open>undefined\<close> is an option. \<open>truthy\<close> is JavaScript's test of a
  string-or-undefined value in a condition, \<open>orElse a b\<close> is \<open>a || b\<close>, and \<open>interp\<close> is
  the interpolation \<open>${v}\<close> of a template literal, which prints \<open>undefined\<close> as the
  nine characters \<open>undefined\<close>.
\<close>

definition truthy :: "string option \<Rightarrow> bool" where
  "truthy v = (case v of None \<Rightarrow> False | Some s \<Rightarrow> s \<noteq> [])"

definition orElse :: "string option \<Rightarrow> string option \<Rightarrow> string option" where
  "orElse a b = (if truthy a then a else b)"

definition interp :: "string option \<Rightarrow> string" where
  "interp v = (case v of None \<Rightarrow> ''undefined'' | Some s \<Rightarrow> s)"

text \<open>\<open>n.toString()\<close> for a non-negative integer, and for an integer.\<close>

definition digitChar :: "nat \<Rightarrow> char" where
  "digitChar d = (if d = 0 then CHR ''0'' else if d = 1 then CHR ''1'' else if d = 2 then CHR ''2''
     else if d = 3 then CHR ''3'' else if d = 4 then CHR ''4'' else if d = 5 then CHR ''5''
     else if d = 6 then CHR ''6'' else if d = 7 then CHR ''7'' else if d = 8 then CHR ''8''
     else CHR ''9'')"

fun showNat :: "nat \<Rightarrow> string" where
  "showNat n = (if n < 10 then [digitChar n] else showNat (n div 10) @ [digitChar (n mod 10)])"

declare showNat.simps [simp del]

definition showInt :: "int \<Rightarrow> string" where
  "showInt i = (if i < 0 then CHR ''-'' # showNat (nat (- i)) else showNat (nat i))"

subsection \<open>The data model\<close>

text \<open>
  \<open>interface Contact\<close> declares \<open>name\<close>, \<open>phone\<close>, \<open>created\<close> and \<open>modified\<close> as strings
  and every other field as optional. The types are erased at run time, and the edit
  form passes its \<open>Partial<Contact>\<close> through \<open>as Contact\<close>, so the repository can
  receive an object in which any field is \<open>undefined\<close>; the record has every field as an
  option, and a contact is well typed when the four declared strings are present.
\<close>

record Contact =
  name :: "string option"
  email :: "string option"
  phone :: "string option"
  company :: "string option"
  title :: "string option"
  notes' :: "string option"
  tags :: "string list option"
  created :: "string option"
  modified :: "string option"
  last_contacted :: "string option"
  next_contact :: "string option"
  contact_frequency :: "string option"

definition wellTyped :: "Contact \<Rightarrow> bool" where
  "wellTyped c = (name c \<noteq> None \<and> phone c \<noteq> None \<and> created c \<noteq> None \<and> modified c \<noteq> None)"

text \<open>
  The vault holds files and folders (\<open>TAbstractFile\<close> is \<open>TFile\<close> or \<open>TFolder\<close>), each
  under its path; a file has its text and the two times of \<open>file.stat\<close>. The list is in
  the host's enumeration order.
\<close>

datatype TAbstractFile =
  isTFile: TFile (path: string) (data: string) (ctime: nat) (mtime: nat)
| TFolder (path: string)

type_synonym Vault = "TAbstractFile list"

datatype error =
  TypeError
| Error string
| FileExists
| DestinationExists

subsection \<open>The frontmatter codec\<close>

text \<open>
  \<open>content.match(/^---\n([\s\S]*?)\n---/)\<close>: the text must start with \<open>---\<close> and a line
  feed; the lazy group then takes the shortest text that is followed by a line feed and
  \<open>---\<close>. \<open>upTo pat s\<close> is the text before the first occurrence of \<open>pat\<close> in \<open>s\<close>.
\<close>

fun upTo :: "string \<Rightarrow> string \<Rightarrow> string option" where
  "upTo pat [] = (if pat = [] then Some [] else None)"
| "upTo pat (c # cs) =
     (if prefix pat (c # cs) then Some [] else map_option ((#) c) (upTo pat cs))"

definition matchFrontMatter :: "string \<Rightarrow> string option" where
  "matchFrontMatter content =
     (if prefix ''---\<newline>'' content then upTo ''\<newline>---'' (drop 4 content) else None)"

text \<open>
  The reducer of \<open>extractFrontMatter\<close>: \<open>const [key, ...values] =
  line.split(':').map(s => s.trim())\<close>, and \<open>acc[key] = values.join(':')\<close> when the key
  is not empty and there is a value. The accumulator is an object literal, so an
  assignment to \<open>__proto__\<close> with a string is ignored by the runtime.
\<close>

definition parseLine :: "(string \<rightharpoonup> string) \<Rightarrow> string \<Rightarrow> (string \<rightharpoonup> string)" where
  "parseLine acc line =
     (case map trim (split_js (CHR '':'') line) of
        [] \<Rightarrow> acc
      | key # values \<Rightarrow>
          if key \<noteq> [] \<and> values \<noteq> []
          then (if key = ''__proto__'' then acc else acc(key \<mapsto> join_js '':'' values))
          else acc)"

definition extractFrontMatter :: "string \<Rightarrow> (string \<rightharpoonup> string) option" where
  "extractFrontMatter content =
     (case matchFrontMatter content of
        None \<Rightarrow> None
      | Some yaml \<Rightarrow> Some (foldl parseLine Map.empty (split_js LF yaml)))"

text \<open>
  \<open>getContactFromFile\<close>: no contact without a frontmatter block or without a truthy
  \<open>name\<close>. Every value of the decoded map is a string, so of the two branches for
  \<open>tags\<close> only the one that splits on commas can run.
\<close>

definition getContactFromFile :: "TAbstractFile \<Rightarrow> Contact option" where
  "getContactFromFile file =
     (case extractFrontMatter (data file) of
        None \<Rightarrow> None
      | Some frontmatter \<Rightarrow>
          if \<not> truthy (frontmatter ''name'') then None
          else Some \<lparr>
            name = frontmatter ''name'',
            email = orElse (frontmatter ''email'') (Some ''''),
            phone = orElse (frontmatter ''phone'') (Some ''''),
            company = frontmatter ''company'',
            title = frontmatter ''title'',
            notes' = frontmatter ''notes'',
            tags = (case frontmatter ''tags'' of
                      None \<Rightarrow> None
                    | Some t \<Rightarrow> if t = [] then None
                               else Some (map trim (split_js (CHR '','') t))),
            created = orElse (frontmatter ''created'') (Some (showNat (ctime file))),
            modified = orElse (frontmatter ''modified'') (Some (showNat (mtime file))),
            last_contacted = frontmatter ''last_contacted'',
            next_contact = frontmatter ''next_contact'',
            contact_frequency = frontmatter ''contact_frequency'' \<rparr>)"

text \<open>
  \<open>createFrontMatter\<close>: the array \<open>frontMatter\<close> holds three lines always, six only
  for a truthy field (\<open>tags\<close> for a non-empty array), then \<open>created\<close> and
  \<open>modified\<close>; the result joins it by line feeds.
\<close>

definition optLine :: "string \<Rightarrow> string option \<Rightarrow> string list" where
  "optLine key v = (if truthy v then [key @ '': '' @ interp v] else [])"

definition tagsLine :: "string list option \<Rightarrow> string list" where
  "tagsLine v =
     (case v of
        None \<Rightarrow> []
      | Some ts \<Rightarrow> if ts = [] then [] else [''tags: '' @ join_js '', '' ts])"

definition frontMatterLines :: "Contact \<Rightarrow> string list" where
  "frontMatterLines contact =
     [''name: '' @ interp (name contact),
      ''email: '' @ interp (email contact),
      ''phone: '' @ interp (phone contact)]
     @ optLine ''company'' (company contact)
     @ optLine ''title'' (title contact)
     @ tagsLine (tags contact)
     @ optLine ''last_contacted'' (last_contacted contact)
     @ optLine ''next_contact'' (next_contact contact)
     @ optLine ''contact_frequency'' (contact_frequency contact)
     @ [''created: '' @ interp (created contact),
        ''modified: '' @ interp (modified contact)]"

definition createFrontMatter :: "Contact \<Rightarrow> string" where
  "createFrontMatter contact = join_js [LF] (frontMatterLines contact)"

text \<open>
  The document text that \<open>createContact\<close> and \<open>updateContact\<close> both build:
  the frontmatter between two \<open>---\<close> lines, a heading with the name, the notes.
\<close>

definition fileContent :: "Contact \<Rightarrow> string" where
  "fileContent contact =
     ''---\<newline>'' @ createFrontMatter contact @ ''\<newline>---\<newline>\<newline># ''
       @ interp (name contact) @ ''\<newline>\<newline>'' @ interp (orElse (notes' contact) (Some ''''))"

text \<open>\<open>s.replace(/[^a-zA-Z0-9]/g, '-')\<close> and the file name derived from a contact's name.\<close>

definition isAlnum :: "char \<Rightarrow> bool" where
  "isAlnum c = (let n = (of_char c :: nat) in
     (48 \<le> n \<and> n \<le> 57) \<or> (65 \<le> n \<and> n \<le> 90) \<or> (97 \<le> n \<and> n \<le> 122))"

definition sanitize :: "string \<Rightarrow> string" where
  "sanitize s = map (\<lambda>c. if isAlnum c then c else CHR ''-'') s"

definition filePath :: "string \<Rightarrow> string \<Rightarrow> string" where
  "filePath contactsFolder nm = contactsFolder @ ''/'' @ sanitize nm @ ''.md''"

subsection \<open>The vault\<close>

text \<open>
  The host's vault, as far as the repository calls it. \<open>getAbstractFileByPath\<close> finds
  the file or folder at a path; \<open>getMarkdownFiles\<close> lists the files with the
  extension \<open>md\<close>; \<open>create\<close> rejects a path that is taken and adds the file
  otherwise; \<open>rename\<close> rejects a destination that is taken and moves the file (or the
  folder and what lies under it) otherwise; \<open>modify\<close> replaces a file's text.
  \<open>now\<close> is the host's clock, which stamps \<open>file.stat\<close>.
\<close>

definition getAbstractFileByPath :: "Vault \<Rightarrow> string \<Rightarrow> TAbstractFile option" where
  "getAbstractFileByPath v p = find (\<lambda>f. path f = p) v"

definition getMarkdownFiles :: "Vault \<Rightarrow> TAbstractFile list" where
  "getMarkdownFiles v = filter (\<lambda>f. isTFile f \<and> suffix ''.md'' (path f)) v"

definition create :: "Vault \<Rightarrow> string \<Rightarrow> string \<Rightarrow> nat \<Rightarrow> (error + unit) \<times> Vault" where
  "create v p text now =
     (case getAbstractFileByPath v p of
        Some f \<Rightarrow> (Inl FileExists, v)
      | None \<Rightarrow> (Inr (), v @ [TFile p text now now]))"

definition setPath :: "string \<Rightarrow> TAbstractFile \<Rightarrow> TAbstractFile" where
  "setPath p f = (case f of TFile q d c m \<Rightarrow> TFile p d c m | TFolder q \<Rightarrow> TFolder p)"

definition moved :: "string \<Rightarrow> string \<Rightarrow> TAbstractFile \<Rightarrow> TAbstractFile" where
  "moved old new f =
     (if path f = old then setPath new f
      else if prefix (old @ ''/'') (path f) then setPath (new @ drop (length old) (path f)) f
      else f)"

definition rename :: "Vault \<Rightarrow> TAbstractFile \<Rightarrow> string \<Rightarrow> (error + unit) \<times> Vault" where
  "rename v file newPath =
     (case getAbstractFileByPath v newPath of
        Some f \<Rightarrow> (Inl DestinationExists, v)
      | None \<Rightarrow> (Inr (), map (moved (path file) newPath) v))"

definition modify :: "Vault \<Rightarrow> TAbstractFile \<Rightarrow> string \<Rightarrow> nat \<Rightarrow> Vault" where
  "modify v file text now =
     map (\<lambda>f. if isTFile f \<and> path f = path file then TFile (path f) text (ctime f) now else f) v"

subsection \<open>The repository\<close>

text \<open>The loop of \<open>getAllContacts\<close>: decode each file, push what decodes.\<close>

fun collectContacts :: "TAbstractFile list \<Rightarrow> Contact list \<Rightarrow> Contact list" where
  "collectContacts [] contacts = contacts"
| "collectContacts (file # files) contacts =
     (case getContactFromFile file of
        None \<Rightarrow> collectContacts files contacts
      | Some contact \<Rightarrow> collectContacts files (contacts @ [contact]))"

definition getAllContacts :: "string \<Rightarrow> Vault \<Rightarrow> Contact list" where
  "getAllContacts contactsFolder v =
     (case getAbstractFileByPath v contactsFolder of
        None \<Rightarrow> []
      | Some folder \<Rightarrow>
          collectContacts
            (filter (\<lambda>file. prefix contactsFolder (path file)) (getMarkdownFiles v)) [])"

text \<open>
  \<open>createContact\<close>: \<open>contact.name.replace\<close> throws a \<open>TypeError\<close> on an undefined name;
  the host's rejection propagates.
\<close>

definition createContact :: "string \<Rightarrow> nat \<Rightarrow> Vault \<Rightarrow> Contact \<Rightarrow> (error + unit) \<times> Vault" where
  "createContact contactsFolder now v contact =
     (case name contact of
        None \<Rightarrow> (Inl TypeError, v)
      | Some nm \<Rightarrow> create v (filePath contactsFolder nm) (fileContent contact) now)"

text \<open>
  \<open>updateContact\<close>: the old path comes from \<open>originalName || contact.name\<close>, the new one
  from \<open>contact.name\<close>; the file is renamed when the two paths differ, looked up again
  under the new path, and overwritten.
\<close>

definition updateContact ::
  "string \<Rightarrow> nat \<Rightarrow> Vault \<Rightarrow> Contact \<Rightarrow> string option \<Rightarrow> (error + unit) \<times> Vault" where
  "updateContact contactsFolder now v contact originalName =
     (case orElse originalName (name contact) of
        None \<Rightarrow> (Inl TypeError, v)
      | Some oldName \<Rightarrow>
     (case name contact of
        None \<Rightarrow> (Inl TypeError, v)
      | Some nm \<Rightarrow>
          let oldFilePath = filePath contactsFolder oldName;
              newFilePath = filePath contactsFolder nm
          in
     (case getAbstractFileByPath v oldFilePath of
        None \<Rightarrow> (Inl (Error ''Original contact file not found''), v)
      | Some file \<Rightarrow>
     (case (if oldFilePath \<noteq> newFilePath then rename v file newFilePath else (Inr (), v)) of
        (Inl e, v') \<Rightarrow> (Inl e, v')
      | (Inr u, v') \<Rightarrow>
     (case getAbstractFileByPath v' newFilePath of
        None \<Rightarrow> (Inl (Error ''Updated contact file not found''), v')
      | Some updatedFile \<Rightarrow>
          if \<not> isTFile updatedFile then (Inl (Error ''Updated contact file not found''), v')
          else (Inr (), modify v' updatedFile (fileContent contact) now))))))"

subsection \<open>Dates\<close>

text \<open>
  The runtime's \<open>Date\<close>, after the ECMAScript specification: a time value is a number
  of milliseconds since the epoch, and a \<open>Date\<close> holds a time value or \<open>NaN\<close> (here
  \<open>None\<close>). A JavaScript number that is an integer or \<open>NaN\<close> is an \<open>int option\<close> in the
  same way. The day and year arithmetic is the specification's; \<open>YearFromTime\<close>, which
  the specification gives as the largest year that starts at or before the time, is
  computed from an estimate that is off by at most one year.
\<close>

definition msPerDay :: int where
  "msPerDay = 86400000"

definition Day :: "int \<Rightarrow> int" where
  "Day t = t div msPerDay"

definition TimeWithinDay :: "int \<Rightarrow> int" where
  "TimeWithinDay t = t mod msPerDay"

definition DaysInYear :: "int \<Rightarrow> int" where
  "DaysInYear y =
     (if y mod 4 \<noteq> 0 then 365 else if y mod 100 \<noteq> 0 then 366
      else if y mod 400 \<noteq> 0 then 365 else 366)"

definition DayFromYear :: "int \<Rightarrow> int" where
  "DayFromYear y =
     365 * (y - 1970) + (y - 1969) div 4 - (y - 1901) div 100 + (y - 1601) div 400"

definition YearFromDay :: "int \<Rightarrow> int" where
  "YearFromDay d =
     (let y = 1970 + (400 * d) div 146097
      in if DayFromYear (y + 1) \<le> d then y + 1 else if DayFromYear y \<le> d then y else y - 1)"

definition YearFromTime :: "int \<Rightarrow> int" where
  "YearFromTime t = YearFromDay (Day t)"

definition InLeapYear :: "int \<Rightarrow> int" where
  "InLeapYear t = (if DaysInYear (YearFromTime t) = 366 then 1 else 0)"

definition DayWithinYear :: "int \<Rightarrow> int" where
  "DayWithinYear t = Day t - DayFromYear (YearFromTime t)"

text \<open>The day of the year on which month \<open>m\<close> (0 to 11) starts.\<close>

definition monthStart :: "int \<Rightarrow> int \<Rightarrow> int" where
  "monthStart m leap =
     (if m = 0 then 0 else if m = 1 then 31 else if m = 2 then 59 + leap
      else if m = 3 then 90 + leap else if m = 4 then 120 + leap
      else if m = 5 then 151 + leap else if m = 6 then 181 + leap
      else if m = 7 then 212 + leap else if m = 8 then 243 + leap
      else if m = 9 then 273 + leap else if m = 10 then 304 + leap
      else 334 + leap)"

definition MonthFromTime :: "int \<Rightarrow> int" where
  "MonthFromTime t =
     (let d = DayWithinYear t; leap = InLeapYear t
      in if d < 31 then 0 else if d < 59 + leap then 1 else if d < 90 + leap then 2
         else if d < 120 + leap then 3 else if d < 151 + leap then 4
         else if d < 181 + leap then 5 else if d < 212 + leap then 6
         else if d < 243 + leap then 7 else if d < 273 + leap then 8
         else if d < 304 + leap then 9 else if d < 334 + leap then 10 else 11)"

definition DateFromTime :: "int \<Rightarrow> int" where
  "DateFromTime t = DayWithinYear t - monthStart (MonthFromTime t) (InLeapYear t) + 1"

definition HourFromTime :: "int \<Rightarrow> int" where
  "HourFromTime t = (t div 3600000) mod 24"

definition MinFromTime :: "int \<Rightarrow> int" where
  "MinFromTime t = (t div 60000) mod 60"

definition SecFromTime :: "int \<Rightarrow> int" where
  "SecFromTime t = (t div 1000) mod 60"

definition msFromTime :: "int \<Rightarrow> int" where
  "msFromTime t = t mod 1000"

definition MakeTime :: "int \<Rightarrow> int \<Rightarrow> int \<Rightarrow> int \<Rightarrow> int" where
  "MakeTime hour minute sec ms = hour * 3600000 + minute * 60000 + sec * 1000 + ms"

definition MakeDay :: "int \<Rightarrow> int \<Rightarrow> int \<Rightarrow> int" where
  "MakeDay year month date =
     (let ym = year + month div 12; mn = month mod 12
      in DayFromYear ym + monthStart mn (if DaysInYear ym = 366 then 1 else 0) + date - 1)"

definition MakeDate :: "int \<Rightarrow> int \<Rightarrow> int" where
  "MakeDate day time = day * msPerDay + time"

definition TimeClip :: "int \<Rightarrow> int option" where
  "TimeClip t = (if \<bar>t\<bar> > 8640000000000000 then None else Some t)"

text \<open>
  What the host decides: how \<open>Date.parse\<close> reads a string (a time value, or \<open>NaN\<close> for
  a string it does not recognise), and the offset of local time from UTC, taken as
  fixed (a zone without daylight saving).
\<close>

record Host =
  parseDate :: "string \<Rightarrow> int option"
  localTZA :: int

definition LocalTime :: "Host \<Rightarrow> int \<Rightarrow> int" where
  "LocalTime h t = t + localTZA h"

definition UTC :: "Host \<Rightarrow> int \<Rightarrow> int" where
  "UTC h t = t - localTZA h"

text \<open>The getters and setters of \<open>Date.prototype\<close> that the plugin calls.\<close>

definition getFullYear :: "Host \<Rightarrow> int option \<Rightarrow> int option" where
  "getFullYear h date = map_option (\<lambda>t. YearFromTime (LocalTime h t)) date"

definition getMonth :: "Host \<Rightarrow> int option \<Rightarrow> int option" where
  "getMonth h date = map_option (\<lambda>t. MonthFromTime (LocalTime h t)) date"

definition getDate :: "Host \<Rightarrow> int option \<Rightarrow> int option" where
  "getDate h date = map_option (\<lambda>t. DateFromTime (LocalTime h t)) date"

definition getHours :: "Host \<Rightarrow> int option \<Rightarrow> int option" where
  "getHours h date = map_option (\<lambda>t. HourFromTime (LocalTime h t)) date"

definition getMinutes :: "Host \<Rightarrow> int option \<Rightarrow> int option" where
  "getMinutes h date = map_option (\<lambda>t. MinFromTime (LocalTime h t)) date"

definition setDate :: "Host \<Rightarrow> int option \<Rightarrow> int option \<Rightarrow> int option" where
  "setDate h date dt =
     (case date of
        None \<Rightarrow> None
      | Some t0 \<Rightarrow>
     (case dt of
        None \<Rightarrow> None
      | Some d \<Rightarrow>
          let t = LocalTime h t0;
              newDate = MakeDate (MakeDay (YearFromTime t) (MonthFromTime t) d) (TimeWithinDay t)
          in TimeClip (UTC h newDate)))"

definition setMonth :: "Host \<Rightarrow> int option \<Rightarrow> int option \<Rightarrow> int option" where
  "setMonth h date month =
     (case date of
        None \<Rightarrow> None
      | Some t0 \<Rightarrow>
     (case month of
        None \<Rightarrow> None
      | Some m \<Rightarrow>
          let t = LocalTime h t0;
              newDate = MakeDate (MakeDay (YearFromTime t) m (DateFromTime t)) (TimeWithinDay t)
          in TimeClip (UTC h newDate)))"

definition setFullYear :: "Host \<Rightarrow> int option \<Rightarrow> int option \<Rightarrow> int option" where
  "setFullYear h date year =
     (case year of
        None \<Rightarrow> None
      | Some y \<Rightarrow>
          let t = (case date of None \<Rightarrow> 0 | Some t0 \<Rightarrow> LocalTime h t0);
              newDate = MakeDate (MakeDay y (MonthFromTime t) (DateFromTime t)) (TimeWithinDay t)
          in TimeClip (UTC h newDate))"

text \<open>\<open>x + k\<close> on a number, \<open>n.toString()\<close>, and \<open>s.padStart(2, '0')\<close>.\<close>

definition plusNum :: "int option \<Rightarrow> int \<Rightarrow> int option" where
  "plusNum x k = map_option (\<lambda>n. n + k) x"

definition numToString :: "int option \<Rightarrow> string" where
  "numToString x = (case x of None \<Rightarrow> ''NaN'' | Some n \<Rightarrow> showInt n)"

definition padStart :: "nat \<Rightarrow> char \<Rightarrow> string \<Rightarrow> string" where
  "padStart n c s = replicate (n - length s) c @ s"

definition pad :: "int option \<Rightarrow> string" where
  "pad n = padStart 2 (CHR ''0'') (numToString n)"

text \<open>
  \<open>calculateNextContact\<close>: \<open>advance\<close> is its \<open>switch\<close> (\<open>None\<close> for the \<open>default\<close>
  branch), \<open>formatLocal\<close> its last line.
\<close>

definition advance :: "Host \<Rightarrow> string \<Rightarrow> int option \<Rightarrow> int option option" where
  "advance h frequency date =
     (if frequency = ''weekly'' then Some (setDate h date (plusNum (getDate h date) 7))
      else if frequency = ''monthly'' then Some (setMonth h date (plusNum (getMonth h date) 1))
      else if frequency = ''quarterly'' then Some (setMonth h date (plusNum (getMonth h date) 3))
      else if frequency = ''yearly''
        then Some (setFullYear h date (plusNum (getFullYear h date) 1))
      else None)"

definition formatLocal :: "Host \<Rightarrow> int option \<Rightarrow> string" where
  "formatLocal h date =
     numToString (getFullYear h date) @ ''-'' @ pad (plusNum (getMonth h date) 1) @ ''-''
       @ pad (getDate h date) @ ''T'' @ pad (getHours h date) @ '':'' @ pad (getMinutes h date)"

definition calculateNextContact :: "Host \<Rightarrow> string \<Rightarrow> string \<Rightarrow> string option" where
  "calculateNextContact h lastContacted frequency =
     (if lastContacted = [] \<or> frequency = [] then None
      else (case advance h frequency (parseDate h lastContacted) of
              None \<Rightarrow> None
            | Some date \<Rightarrow> Some (formatLocal h date)))"

text \<open>\<open>new Date().toISOString()\<close> at the time value \<open>t\<close> of the clock.\<close>

definition toISOString :: "int \<Rightarrow> string" where
  "toISOString t =
     (let y = YearFromTime t
      in (if 0 \<le> y \<and> y \<le> 9999 then padStart 4 (CHR ''0'') (showNat (nat y))
          else (if y < 0 then ''-'' else ''+'') @ padStart 6 (CHR ''0'') (showNat (nat \<bar>y\<bar>)))
         @ ''-'' @ pad (Some (MonthFromTime t + 1)) @ ''-'' @ pad (Some (DateFromTime t))
         @ ''T'' @ pad (Some (HourFromTime t)) @ '':'' @ pad (Some (MinFromTime t))
         @ '':'' @ pad (Some (SecFromTime t))
         @ ''.'' @ padStart 3 (CHR ''0'') (showInt (msFromTime t)) @ ''Z'')"

subsection \<open>The edit form\<close>

text \<open>
  The click handler of the form's \<open>Mark as Contacted\<close> button, on the form's contact
  and original name: it returns what \<open>updateContact\<close> returns and the form's contact
  after the click. \<open>clock\<close> is the time value that \<open>new Date()\<close> reads. The refresh
  of the list view and the notice that follow change neither.
\<close>

definition markAsContacted ::
  "Host \<Rightarrow> string \<Rightarrow> int \<Rightarrow> Vault \<Rightarrow> Contact \<Rightarrow> string option
     \<Rightarrow> ((error + unit) \<times> Vault) \<times> Contact" where
  "markAsContacted h contactsFolder clock v contact originalName =
     (let nowLocal = ''2025-04-24T09:28'';
          c1 = contact\<lparr>last_contacted := Some nowLocal\<rparr>;
          c2 = (case contact_frequency c1 of
                  None \<Rightarrow> c1
                | Some frequency \<Rightarrow>
                    if frequency = [] then c1
                    else c1\<lparr>next_contact := calculateNextContact h nowLocal frequency\<rparr>);
          now = toISOString clock;
          fullContact = c2\<lparr>modified := Some now\<rparr>
      in (updateContact contactsFolder (nat clock) v fullContact originalName, c2))"

subsection \<open>A sample host and sample data\<close>

text \<open>
  A host whose \<open>Date.parse\<close> reads the two forms the plugin itself writes,
  \<open>YYYY-MM-DDTHH:mm\<close> as local time and \<open>YYYY-MM-DDTHH:mm:ss.sssZ\<close> as UTC, the
  second also with an expanded year (a sign and six digits), and nothing else. Its
  local time is one hour ahead of UTC.
\<close>

definition digitVal :: "char \<Rightarrow> nat option" where
  "digitVal c = (let n = (of_char c :: nat) in if 48 \<le> n \<and> n \<le> 57 then Some (n - 48) else None)"

fun readDigits :: "nat \<Rightarrow> string \<Rightarrow> nat option" where
  "readDigits acc [] = Some acc"
| "readDigits acc (c # cs) =
     (case digitVal c of None \<Rightarrow> None | Some d \<Rightarrow> readDigits (10 * acc + d) cs)"

definition field :: "nat \<Rightarrow> nat \<Rightarrow> string \<Rightarrow> nat option" where
  "field i n s = readDigits 0 (take n (drop i s))"

definition isoTail :: "string \<Rightarrow> (nat \<times> nat \<times> nat \<times> nat) option" where
  "isoTail r =
     (if r ! 0 = CHR ''-'' \<and> r ! 3 = CHR ''-'' \<and> r ! 6 = CHR ''T'' \<and> r ! 9 = CHR '':''
      then (case (field 1 2 r, field 4 2 r, field 7 2 r, field 10 2 r) of
              (Some mo, Some d, Some hh, Some mi) \<Rightarrow>
                if 1 \<le> mo \<and> mo \<le> 12 \<and> 1 \<le> d \<and> d \<le> 31 \<and> hh \<le> 23 \<and> mi \<le> 59
                then Some (mo, d, hh, mi) else None
            | _ \<Rightarrow> None)
      else None)"

definition isoSeconds :: "string \<Rightarrow> (nat \<times> nat) option" where
  "isoSeconds r =
     (if r ! 0 = CHR '':'' \<and> r ! 3 = CHR ''.'' \<and> r ! 7 = CHR ''Z''
      then (case (field 1 2 r, field 4 3 r) of
              (Some ss, Some ms) \<Rightarrow> if ss \<le> 59 then Some (ss, ms) else None
            | _ \<Rightarrow> None)
      else None)"

definition isoParse :: "int \<Rightarrow> string \<Rightarrow> int option" where
  "isoParse tza s =
     (if length s = 16 then
        (case (field 0 4 s, isoTail (drop 4 s)) of
           (Some y, Some (mo, d, hh, mi)) \<Rightarrow>
             TimeClip (MakeDate (MakeDay (int y) (int mo - 1) (int d))
                         (MakeTime (int hh) (int mi) 0 0) - tza)
         | _ \<Rightarrow> None)
      else if length s = 24 then
        (case (field 0 4 s, isoTail (drop 4 s), isoSeconds (drop 16 s)) of
           (Some y, Some (mo, d, hh, mi), Some (ss, ms)) \<Rightarrow>
             TimeClip (MakeDate (MakeDay (int y) (int mo - 1) (int d))
                         (MakeTime (int hh) (int mi) (int ss) (int ms)))
         | _ \<Rightarrow> None)
      else if length s = 27 \<and> (hd s = CHR ''+'' \<or> hd s = CHR ''-'') then
        (case (field 1 6 s, isoTail (drop 7 s), isoSeconds (drop 19 s)) of
           (Some y, Some (mo, d, hh, mi), Some (ss, ms)) \<Rightarrow>
             TimeClip (MakeDate
                         (MakeDay (if hd s = CHR ''-'' then - int y else int y) (int mo - 1) (int d))
                         (MakeTime (int hh) (int mi) (int ss) (int ms)))
         | _ \<Rightarrow> None)
      else None)"

definition sampleHost :: Host where
  "sampleHost = \<lparr> parseDate = isoParse 3600000, localTZA = 3600000 \<rparr>"

text \<open>A contact with the declared fields only, and a vault that holds one contact.\<close>

definition sampleContact :: "string \<Rightarrow> Contact" where
  "sampleContact nm = \<lparr>
     name = Some nm, email = Some ''bob@example.org'', phone = Some ''555 0100'',
     company = None, title = None, notes' = None, tags = None,
     created = Some ''2025-01-01T00:00:00.000Z'', modified = Some ''2025-01-01T00:00:00.000Z'',
     last_contacted = None, next_contact = None, contact_frequency = None \<rparr>"

definition sampleVault :: Vault where
  "sampleVault =
     [TFolder ''Contacts'',
      TFile ''Contacts/Bob-Old.md'' (fileContent (sampleContact ''Bob Old'')) 3 3]"

subsection \<open>Notions used in the statements\<close>

text \<open>
  \<open>colonTrim v\<close> is what the reducer stores for a line \<open>key: v\<close>: the pieces of \<open>v\<close>
  between colons, each trimmed, joined by colons again. \<open>decodedMap\<close> is the reduction
  over the lines that \<open>createFrontMatter\<close> joins.
\<close>

definition colonTrim :: "string \<Rightarrow> string" where
  "colonTrim v = join_js '':'' (map trim (split_js (CHR '':'') v))"

definition decodedMap :: "Contact \<Rightarrow> (string \<rightharpoonup> string)" where
  "decodedMap contact = foldl parseLine Map.empty (frontMatterLines contact)"

text \<open>
  A field is free of line breaks when its interpolation holds no line feed; a contact
  is, when every field that \<open>createFrontMatter\<close> writes is.
\<close>

definition noLF :: "string option \<Rightarrow> bool" where
  "noLF v = (LF \<notin> set (interp v))"

definition noLineBreaks :: "Contact \<Rightarrow> bool" where
  "noLineBreaks c =
     (noLF (name c) \<and> noLF (email c) \<and> noLF (phone c) \<and> noLF (company c) \<and> noLF (title c)
      \<and> (case tags c of None \<Rightarrow> True | Some ts \<Rightarrow> list_all (\<lambda>t. LF \<notin> set t) ts)
      \<and> noLF (last_contacted c) \<and> noLF (next_contact c) \<and> noLF (contact_frequency c)
      \<and> noLF (created c) \<and> noLF (modified c))"

text \<open>
  A string is trimmed when it is empty or neither starts nor ends with white space.
  A value is line-safe when it holds no line feed and each of its pieces between
  colons is trimmed (\<open>2025-04-24T09:28\<close> is; \<open>a : b\<close> is not); an optional value is,
  when it is absent or line-safe. A tag is safe when it is not empty, trimmed, and
  holds no line feed, colon or comma.
\<close>

definition trimmed :: "string \<Rightarrow> bool" where
  "trimmed s = (s = [] \<or> (\<not> isWhiteSpace (hd s) \<and> \<not> isWhiteSpace (last s)))"

definition lineSafe :: "string \<Rightarrow> bool" where
  "lineSafe s = (LF \<notin> set s \<and> list_all trimmed (split_js (CHR '':'') s))"

definition lineSafeOpt :: "string option \<Rightarrow> bool" where
  "lineSafeOpt v = (case v of None \<Rightarrow> True | Some s \<Rightarrow> lineSafe s)"

definition tagSafe :: "string \<Rightarrow> bool" where
  "tagSafe t = (t \<noteq> [] \<and> trimmed t \<and> LF \<notin> set t \<and> CHR '':'' \<notin> set t \<and> CHR '','' \<notin> set t)"

definition visible :: "string \<Rightarrow> bool" where
  "visible s = list_ex (\<lambda>ch. \<not> isWhiteSpace ch) s"

text \<open>
  The two characters that \<open>pad\<close> yields for a number from 0 to 99, and the units of
  the four frequencies on the calendar fields year, month and day of the month.
\<close>

definition twoDigits :: "int \<Rightarrow> string" where
  "twoDigits n = [digitChar (nat n div 10), digitChar (nat n mod 10)]"

definition calendarStep :: "string \<Rightarrow> int \<times> int \<times> int \<Rightarrow> int \<times> int \<times> int" where
  "calendarStep frequency ymd =
     (case ymd of (y, m, d) \<Rightarrow>
        if frequency = ''weekly'' then (y, m, d + 7)
        else if frequency = ''monthly'' then (y, m + 1, d)
        else if frequency = ''quarterly'' then (y, m + 3, d)
        else (y + 1, m, d))"

text \<open>An update of a map that happens only under a condition.\<close>

definition putIf ::
  "bool \<Rightarrow> string \<Rightarrow> string \<Rightarrow> (string \<rightharpoonup> string) \<Rightarrow> (string \<rightharpoonup> string)" where
  "putIf b k x acc = (\<lambda>k'. if k' = k \<and> b then Some x else acc k')"

text \<open>
  A contact is safe for the round trip when its name is present, not empty and
  line-safe, its email and phone are present and line-safe, its other optional strings
  are absent or line-safe, its tags are safe, and \<open>created\<close> and \<open>modified\<close> hold no
  line feed.
\<close>

definition roundTripSafe :: "Contact \<Rightarrow> bool" where
  "roundTripSafe c =
     ((case name c of None \<Rightarrow> False | Some n \<Rightarrow> n \<noteq> [] \<and> lineSafe n)
      \<and> (case email c of None \<Rightarrow> False | Some e \<Rightarrow> lineSafe e)
      \<and> (case phone c of None \<Rightarrow> False | Some ph \<Rightarrow> lineSafe ph)
      \<and> lineSafeOpt (company c) \<and> lineSafeOpt (title c)
      \<and> (case tags c of None \<Rightarrow> True | Some ts \<Rightarrow> list_all tagSafe ts)
      \<and> lineSafeOpt (last_contacted c) \<and> lineSafeOpt (next_contact c)
      \<and> lineSafeOpt (contact_frequency c)
      \<and> noLF (created c) \<and> noLF (modified c))"

text \<open>A contact with every field set.\<close>

definition fullContact :: Contact where
  "fullContact = \<lparr>
     name = Some ''Ann Lee'', email = Some ''ann@example.org'', phone = Some ''555 0101'',
     company = Some ''ACME'', title = Some ''CTO'', notes' = Some ''met in Oslo'',
     tags = Some [''friend'', ''work''],
     created = Some ''2025-01-01T00:00:00.000Z'', modified = Some ''2025-02-01T00:00:00.000Z'',
     last_contacted = Some ''2025-04-24T09:28'', next_contact = Some ''2025-05-01T09:28'',
     contact_frequency = Some ''weekly'' \<rparr>"

section \<open>Properties\<close>

subsection \<open>Strings and the vault\<close>

lemma split_js_nonempty: "split_js sep s \<noteq> []"
  by (induction s) (auto split: list.splits)

lemma sanitize_no_slash: "CHR ''/'' \<notin> set (sanitize s)"
  by (auto simp: sanitize_def isAlnum_def)

lemma find_append_new:
  "find P v = None \<Longrightarrow> P x \<Longrightarrow> find P (v @ [x]) = Some x"
  by (induction v) (auto split: if_splits)

lemma create_then_found:
  assumes "create v p text now = (Inr (), v1)"
  shows "getAbstractFileByPath v1 p = Some (TFile p text now now)"
  using assms
  by (auto simp: create_def getAbstractFileByPath_def find_append_new split: option.splits)

lemma modify_paths: "map path (modify v f text now) = map path v"
  by (induction v) (auto simp: modify_def)

lemma find_modify:
  "find (\<lambda>f. path f = p) v = Some (TFile p d ct mt) \<Longrightarrow>
   find (\<lambda>f. path f = p) (modify v (TFile p d ct mt) text now) = Some (TFile p text ct now)"
  by (induction v) (auto simp: modify_def split: if_splits)

lemma orElse_same_path:
  assumes "sanitize n1 = sanitize n2"
  shows "\<exists>oldName. orElse (Some n1) (Some n2) = Some oldName
           \<and> filePath folder oldName = filePath folder n2"
  using assms by (cases "n1 = []") (auto simp: orElse_def truthy_def filePath_def)

lemma find_None_paths:
  "find (\<lambda>f. path f = p) v = None \<longleftrightarrow> p \<notin> set (map path v)"
  by (induction v) auto

lemma filePath_not_under:
  "filePath folder a \<noteq> filePath folder b @ ''/'' @ r"
proof
  assume "filePath folder a = filePath folder b @ ''/'' @ r"
  then have "sanitize a @ ''.md'' = sanitize b @ ''.md/'' @ r"
    by (simp add: filePath_def)
  then have "set (sanitize a @ ''.md'') = set (sanitize b @ ''.md/'' @ r)"
    by simp
  then have "CHR ''/'' \<in> set (sanitize a @ ''.md'')"
    by simp
  then show False
    using sanitize_no_slash [of a] by simp
qed

lemma path_setPath: "path (setPath p f) = p"
  by (cases f) (simp_all add: setPath_def)

lemma moved_path_old:
  assumes m: "path (moved (filePath folder a) (filePath folder b) f) = filePath folder a"
  shows "filePath folder a = filePath folder b"
proof (cases "path f = filePath folder a")
  case True
  with m show ?thesis by (simp add: moved_def path_setPath)
next
  case False
  show ?thesis
  proof (cases "prefix (filePath folder a @ ''/'') (path f)")
    case True
    then obtain r where r: "path f = filePath folder a @ ''/'' @ r"
      by (auto simp: prefix_def)
    with False m have "filePath folder b @ ''/'' @ r = filePath folder a"
      by (simp add: moved_def path_setPath)
    then show ?thesis using filePath_not_under [of folder a b r] by simp
  next
    case no: False
    with False m show ?thesis by (simp add: moved_def)
  qed
qed

lemma find_moved_old:
  assumes "filePath folder a \<noteq> filePath folder b"
  shows "find (\<lambda>f. path f = filePath folder a)
           (map (moved (filePath folder a) (filePath folder b)) v) = None"
  using assms moved_path_old [of folder a b] by (auto simp: find_None_iff)

lemma moved_path_new:
  assumes "path f \<noteq> old" and "path f \<noteq> new"
  shows "path (moved old new f) \<noteq> new"
proof (cases "prefix (old @ ''/'') (path f)")
  case True
  then obtain r where "path f = old @ ''/'' @ r"
    by (auto simp: prefix_def)
  with assms show ?thesis by (simp add: moved_def path_setPath)
next
  case False
  with assms show ?thesis by (simp add: moved_def)
qed

lemma find_moved_new:
  assumes "find (\<lambda>f. path f = old) v = Some (TFile old d ct mt)"
    and "find (\<lambda>f. path f = new) v = None"
  shows "find (\<lambda>f. path f = new) (map (moved old new) v) = Some (TFile new d ct mt)"
  using assms
proof (induction v)
  case Nil
  then show ?case by simp
next
  case (Cons f v)
  show ?case
  proof (cases "path f = old")
    case True
    with Cons.prems have "f = TFile old d ct mt" by simp
    then show ?thesis by (simp add: moved_def setPath_def)
  next
    case False
    with Cons.prems have "path f \<noteq> new" by (auto split: if_splits)
    with False have "path (moved old new f) \<noteq> new" by (rule moved_path_new)
    with False Cons show ?thesis by (auto split: if_splits)
  qed
qed

subsection \<open>Updating a contact whose original document is missing\<close>

text \<open>
  For a well-typed contact and any original name (given, empty or absent): when the
  vault has nothing at the old path, the one derived from
  \<open>originalName || contact.name\<close>, \<open>updateContact\<close> throws
  \<open>Original contact file not found\<close> and the vault is the one it was.
\<close>

lemma updateContact_nothing_at_old_path:
  assumes "name contact = Some nm"
    and "orElse originalName (name contact) = Some oldName"
    and "getAbstractFileByPath v (filePath contactsFolder oldName) = None"
  shows "updateContact contactsFolder now v contact originalName
           = (Inl (Error ''Original contact file not found''), v)"
  using assms by (simp add: updateContact_def)

lemma updateContact_nothing_at_old_path_example:
  "name (sampleContact ''Carl'') = Some ''Carl''
   \<and> orElse (Some ''Carl Old'') (name (sampleContact ''Carl'')) = Some ''Carl Old''
   \<and> getAbstractFileByPath sampleVault (filePath ''Contacts'' ''Carl Old'') = None
   \<and> updateContact ''Contacts'' 5 sampleVault (sampleContact ''Carl'') (Some ''Carl Old'')
       = (Inl (Error ''Original contact file not found''), sampleVault)"
proof -
  have a: "name (sampleContact ''Carl'') = Some ''Carl''"
    by (simp add: sampleContact_def)
  have b: "orElse (Some ''Carl Old'') (name (sampleContact ''Carl'')) = Some ''Carl Old''"
    by (simp add: orElse_def truthy_def)
  have c: "getAbstractFileByPath sampleVault (filePath ''Contacts'' ''Carl Old'') = None"
    by (simp add: getAbstractFileByPath_def sampleVault_def filePath_def sanitize_def isAlnum_def)
  show ?thesis
    using a b c updateContact_nothing_at_old_path [OF a b c, of 5] by simp
qed

text \<open>
  Claim C5. The guard of \<open>updateContact\<close> on the old path is \<open>if (!file)\<close>: it lets a
  folder pass, where the second guard of the same function asks for a \<open>TFile\<close>. In the
  vault below no document is at the old path \<open>Contacts/Bob-Old.md\<close>, a folder is.
  \<open>updateContact\<close> of \<open>Bob New\<close> under the original name \<open>Bob Old\<close> does fail, but
  with \<open>Updated contact file not found\<close> and after the rename: the folder and the
  document in it have moved to \<open>Contacts/Bob-New.md\<close>.
\<close>

theorem updateContact_folder_at_old_path:
  "find (\<lambda>f. isTFile f \<and> path f = filePath ''Contacts'' ''Bob Old'')
      [TFolder ''Contacts'', TFolder ''Contacts/Bob-Old.md'',
       TFile ''Contacts/Bob-Old.md/x.md'' ''x'' 3 3] = None
   \<and> updateContact ''Contacts'' 5
        [TFolder ''Contacts'', TFolder ''Contacts/Bob-Old.md'',
         TFile ''Contacts/Bob-Old.md/x.md'' ''x'' 3 3]
        (sampleContact ''Bob New'') (Some ''Bob Old'')
       = (Inl (Error ''Updated contact file not found''),
          [TFolder ''Contacts'', TFolder ''Contacts/Bob-New.md'',
           TFile ''Contacts/Bob-New.md/x.md'' ''x'' 3 3])"
  by (simp add: updateContact_def sampleContact_def orElse_def truthy_def filePath_def
      sanitize_def isAlnum_def getAbstractFileByPath_def rename_def moved_def setPath_def
      Let_def)

subsection \<open>Names that share a file\<close>

lemma update_in_place:
  assumes nm: "name c2 = Some n2" and san: "sanitize n1 = sanitize n2"
    and f: "getAbstractFileByPath v (filePath folder n1) = Some (TFile (filePath folder n1) d ct mt)"
  shows "updateContact folder now v c2 (Some n1)
           = (Inr (), modify v (TFile (filePath folder n1) d ct mt) (fileContent c2) now)"
proof -
  have p: "filePath folder n1 = filePath folder n2"
    using san by (simp add: filePath_def)
  obtain oldName where o: "orElse (Some n1) (Some n2) = Some oldName"
    and q: "filePath folder oldName = filePath folder n2"
    using orElse_same_path [OF san] by blast
  show ?thesis
    using nm o q p f by (simp add: updateContact_def)
qed

text \<open>
  Claim C10. The derived path is not injective: two different names can have the same
  path (\<open>Ann Lee\<close> and \<open>Ann?Lee\<close> do). For any two contacts whose names sanitize to the
  same text, once the first has been created, creating the second is rejected by the
  host because the file exists and leaves the vault as it is, and \<open>updateContact\<close> of the
  second under the first as original name renames nothing: the vault keeps its paths,
  and the file at the old path now holds the text of the second contact.
\<close>

theorem filePath_collision:
  assumes n1: "name c1 = Some n1" and n2: "name c2 = Some n2"
    and san: "sanitize n1 = sanitize n2"
    and cr: "createContact folder now v c1 = (Inr (), v1)"
  shows "(\<exists>a b. a \<noteq> b \<and> filePath folder a = filePath folder b)
    \<and> filePath folder n1 = filePath folder n2
    \<and> createContact folder now' v1 c2 = (Inl FileExists, v1)
    \<and> (\<exists>v2. updateContact folder now' v1 c2 (Some n1) = (Inr (), v2)
          \<and> map path v2 = map path v1
          \<and> getAbstractFileByPath v2 (filePath folder n1)
              = Some (TFile (filePath folder n1) (fileContent c2) now now'))"
proof -
  let ?p = "filePath folder n1"
  have ex: "\<exists>a b. a \<noteq> b \<and> filePath folder a = filePath folder b"
    by (rule exI [of _ "''Ann Lee''"], rule exI [of _ "''Ann?Lee''"])
      (simp add: filePath_def sanitize_def isAlnum_def)
  have p: "?p = filePath folder n2"
    using san by (simp add: filePath_def)
  have found: "getAbstractFileByPath v1 ?p = Some (TFile ?p (fileContent c1) now now)"
    using cr n1 by (simp add: createContact_def create_then_found)
  have second: "createContact folder now' v1 c2 = (Inl FileExists, v1)"
    using n2 found p by (simp add: createContact_def create_def)
  let ?v2 = "modify v1 (TFile ?p (fileContent c1) now now) (fileContent c2) now'"
  have upd: "updateContact folder now' v1 c2 (Some n1) = (Inr (), ?v2)"
    by (rule update_in_place [OF n2 san found])
  have after: "getAbstractFileByPath ?v2 ?p = Some (TFile ?p (fileContent c2) now now')"
    using found unfolding getAbstractFileByPath_def by (rule find_modify)
  have third: "\<exists>v2. updateContact folder now' v1 c2 (Some n1) = (Inr (), v2)
          \<and> map path v2 = map path v1
          \<and> getAbstractFileByPath v2 ?p = Some (TFile ?p (fileContent c2) now now')"
    using upd after modify_paths by (intro exI [of _ ?v2]) simp
  show ?thesis
    using ex p second third by simp
qed

theorem filePath_collision_witness:
  "name (sampleContact ''Ann Lee'') = Some ''Ann Lee''
   \<and> name (sampleContact ''Ann?Lee'') = Some ''Ann?Lee''
   \<and> ''Ann Lee'' \<noteq> ''Ann?Lee''
   \<and> sanitize ''Ann Lee'' = sanitize ''Ann?Lee''
   \<and> createContact ''Contacts'' 5 [TFolder ''Contacts''] (sampleContact ''Ann Lee'')
       = (Inr (), [TFolder ''Contacts'',
                   TFile ''Contacts/Ann-Lee.md'' (fileContent (sampleContact ''Ann Lee'')) 5 5])
   \<and> filePath ''Contacts'' ''Ann Lee'' = filePath ''Contacts'' ''Ann?Lee''
   \<and> createContact ''Contacts'' 9
        [TFolder ''Contacts'',
         TFile ''Contacts/Ann-Lee.md'' (fileContent (sampleContact ''Ann Lee'')) 5 5]
        (sampleContact ''Ann?Lee'')
       = (Inl FileExists,
          [TFolder ''Contacts'',
           TFile ''Contacts/Ann-Lee.md'' (fileContent (sampleContact ''Ann Lee'')) 5 5])
   \<and> updateContact ''Contacts'' 9
        [TFolder ''Contacts'',
         TFile ''Contacts/Ann-Lee.md'' (fileContent (sampleContact ''Ann Lee'')) 5 5]
        (sampleContact ''Ann?Lee'') (Some ''Ann Lee'')
       = (Inr (),
          [TFolder ''Contacts'',
           TFile ''Contacts/Ann-Lee.md'' (fileContent (sampleContact ''Ann?Lee'')) 5 9])"
proof -
  let ?v = "[TFolder ''Contacts'']"
  let ?v1 = "[TFolder ''Contacts'',
              TFile ''Contacts/Ann-Lee.md'' (fileContent (sampleContact ''Ann Lee'')) 5 5]"
  have a: "name (sampleContact ''Ann Lee'') = Some ''Ann Lee''"
    by (simp add: sampleContact_def)
  have b: "name (sampleContact ''Ann?Lee'') = Some ''Ann?Lee''"
    by (simp add: sampleContact_def)
  have c: "sanitize ''Ann Lee'' = sanitize ''Ann?Lee''"
    by (simp add: sanitize_def isAlnum_def)
  have d: "createContact ''Contacts'' 5 ?v (sampleContact ''Ann Lee'') = (Inr (), ?v1)"
    by (simp add: createContact_def a create_def getAbstractFileByPath_def filePath_def
        sanitize_def isAlnum_def)
  have e: "updateContact ''Contacts'' 9 ?v1 (sampleContact ''Ann?Lee'') (Some ''Ann Lee'')
       = (Inr (), [TFolder ''Contacts'',
           TFile ''Contacts/Ann-Lee.md'' (fileContent (sampleContact ''Ann?Lee'')) 5 9])"
    by (simp add: updateContact_def b orElse_def truthy_def getAbstractFileByPath_def
        filePath_def sanitize_def isAlnum_def modify_def)
  show ?thesis
    using a b c d e filePath_collision [OF a b c d, of 9] by simp
qed

subsection \<open>Renaming a contact\<close>

text \<open>
  Claim C7, as the claim states it, fails when the new path is taken: the vault below
  holds a document for \<open>Bob Old\<close> and one for \<open>Bob New\<close>; the host rejects the
  rename, \<open>updateContact\<close> passes the rejection on, and nothing is renamed or
  overwritten.
\<close>

theorem updateContact_rename_counterexample:
  "getAbstractFileByPath
     [TFolder ''Contacts'', TFile ''Contacts/Bob-Old.md'' ''old'' 3 3,
      TFile ''Contacts/Bob-New.md'' ''other'' 4 4]
     (filePath ''Contacts'' ''Bob Old'')
     = Some (TFile ''Contacts/Bob-Old.md'' ''old'' 3 3)
   \<and> filePath ''Contacts'' ''Bob Old'' \<noteq> filePath ''Contacts'' ''Bob New''
   \<and> updateContact ''Contacts'' 9
        [TFolder ''Contacts'', TFile ''Contacts/Bob-Old.md'' ''old'' 3 3,
         TFile ''Contacts/Bob-New.md'' ''other'' 4 4]
        (sampleContact ''Bob New'') (Some ''Bob Old'')
       = (Inl DestinationExists,
          [TFolder ''Contacts'', TFile ''Contacts/Bob-Old.md'' ''old'' 3 3,
           TFile ''Contacts/Bob-New.md'' ''other'' 4 4])"
  by (simp add: updateContact_def sampleContact_def orElse_def truthy_def
      getAbstractFileByPath_def filePath_def sanitize_def isAlnum_def rename_def)

text \<open>
  Claim C7, amended. For a well-typed contact whose old path (from
  \<open>originalName || contact.name\<close>) holds a file and differs from the new path, and with
  nothing in the vault at the new path: \<open>updateContact\<close> first renames the file, after
  which the old path is free and the new path holds the file with its old text; it then
  overwrites that file, and returns a vault of the same size in which the old path is
  free and the new path holds the freshly encoded contact.
\<close>

theorem updateContact_rename:
  assumes nm: "name contact = Some nm"
    and o: "orElse originalName (name contact) = Some oldName"
    and differ: "filePath folder oldName \<noteq> filePath folder nm"
    and old: "getAbstractFileByPath v (filePath folder oldName)
                = Some (TFile (filePath folder oldName) d ct mt)"
    and new: "getAbstractFileByPath v (filePath folder nm) = None"
  shows "\<exists>v1 v2.
      rename v (TFile (filePath folder oldName) d ct mt) (filePath folder nm) = (Inr (), v1)
    \<and> getAbstractFileByPath v1 (filePath folder oldName) = None
    \<and> getAbstractFileByPath v1 (filePath folder nm) = Some (TFile (filePath folder nm) d ct mt)
    \<and> v2 = modify v1 (TFile (filePath folder nm) d ct mt) (fileContent contact) now
    \<and> updateContact folder now v contact originalName = (Inr (), v2)
    \<and> getAbstractFileByPath v2 (filePath folder oldName) = None
    \<and> getAbstractFileByPath v2 (filePath folder nm)
         = Some (TFile (filePath folder nm) (fileContent contact) ct now)
    \<and> length v2 = length v"
proof -
  let ?old = "filePath folder oldName" and ?new = "filePath folder nm"
  let ?v1 = "map (moved ?old ?new) v"
  let ?v2 = "modify ?v1 (TFile ?new d ct mt) (fileContent contact) now"
  have r: "rename v (TFile ?old d ct mt) ?new = (Inr (), ?v1)"
    using new by (simp add: rename_def)
  have a: "getAbstractFileByPath ?v1 ?old = None"
    unfolding getAbstractFileByPath_def using differ by (rule find_moved_old)
  have b: "getAbstractFileByPath ?v1 ?new = Some (TFile ?new d ct mt)"
    using old new unfolding getAbstractFileByPath_def by (rule find_moved_new)
  have u: "updateContact folder now v contact originalName = (Inr (), ?v2)"
    using nm o old differ r b by (simp add: updateContact_def Let_def)
  have c: "getAbstractFileByPath ?v2 ?new = Some (TFile ?new (fileContent contact) ct now)"
    using b unfolding getAbstractFileByPath_def by (rule find_modify)
  have "?old \<notin> set (map path ?v1)"
    using a unfolding getAbstractFileByPath_def find_None_paths .
  then have "?old \<notin> set (map path ?v2)"
    unfolding modify_paths .
  then have e: "getAbstractFileByPath ?v2 ?old = None"
    unfolding getAbstractFileByPath_def find_None_paths .
  have l: "length ?v2 = length v"
    by (simp add: modify_def)
  show ?thesis
    using r a b u c e l by (intro exI [of _ ?v1] exI [of _ ?v2]) simp
qed

theorem updateContact_rename_witness:
  "name (sampleContact ''Bob New'') = Some ''Bob New''
   \<and> orElse (Some ''Bob Old'') (name (sampleContact ''Bob New'')) = Some ''Bob Old''
   \<and> filePath ''Contacts'' ''Bob Old'' \<noteq> filePath ''Contacts'' ''Bob New''
   \<and> getAbstractFileByPath sampleVault (filePath ''Contacts'' ''Bob Old'')
       = Some (TFile (filePath ''Contacts'' ''Bob Old'')
                 (fileContent (sampleContact ''Bob Old'')) 3 3)
   \<and> getAbstractFileByPath sampleVault (filePath ''Contacts'' ''Bob New'') = None
   \<and> updateContact ''Contacts'' 9 sampleVault (sampleContact ''Bob New'') (Some ''Bob Old'')
       = (Inr (), [TFolder ''Contacts'',
            TFile ''Contacts/Bob-New.md'' (fileContent (sampleContact ''Bob New'')) 3 9])"
proof -
  have a: "name (sampleContact ''Bob New'') = Some ''Bob New''"
    by (simp add: sampleContact_def)
  have b: "orElse (Some ''Bob Old'') (name (sampleContact ''Bob New'')) = Some ''Bob Old''"
    by (simp add: orElse_def truthy_def)
  have c: "filePath ''Contacts'' ''Bob Old'' \<noteq> filePath ''Contacts'' ''Bob New''"
    by (simp add: filePath_def sanitize_def isAlnum_def)
  have d: "getAbstractFileByPath sampleVault (filePath ''Contacts'' ''Bob Old'')
       = Some (TFile (filePath ''Contacts'' ''Bob Old'')
                 (fileContent (sampleContact ''Bob Old'')) 3 3)"
    by (simp add: getAbstractFileByPath_def sampleVault_def filePath_def sanitize_def
        isAlnum_def)
  have e: "getAbstractFileByPath sampleVault (filePath ''Contacts'' ''Bob New'') = None"
    by (simp add: getAbstractFileByPath_def sampleVault_def filePath_def sanitize_def
        isAlnum_def)
  have f: "modify (map (moved ''Contacts/Bob-Old.md'' ''Contacts/Bob-New.md'') sampleVault)
             (TFile ''Contacts/Bob-New.md'' (fileContent (sampleContact ''Bob Old'')) 3 3)
             (fileContent (sampleContact ''Bob New'')) 9
       = [TFolder ''Contacts'',
            TFile ''Contacts/Bob-New.md'' (fileContent (sampleContact ''Bob New'')) 3 9]"
    by (simp add: sampleVault_def modify_def moved_def setPath_def)
  have g: "filePath ''Contacts'' ''Bob Old'' = ''Contacts/Bob-Old.md''"
    "filePath ''Contacts'' ''Bob New'' = ''Contacts/Bob-New.md''"
    by (simp_all add: filePath_def sanitize_def isAlnum_def)
  show ?thesis
    using a b c d e updateContact_rename [OF a b c d e, of 9]
    by (simp add: g rename_def f)
qed

subsection \<open>Splitting, joining and the frontmatter match\<close>

lemma split_js_no_sep: "sep \<notin> set l \<Longrightarrow> split_js sep l = [l]"
  by (induction l) auto

lemma split_js_append:
  "sep \<notin> set l \<Longrightarrow> split_js sep (l @ sep # rest) = l # split_js sep rest"
  by (induction l) auto

lemma split_join_lines:
  assumes "ls \<noteq> []" and "\<forall>l\<in>set ls. sep \<notin> set l"
  shows "split_js sep (join_js [sep] ls) = ls"
  using assms
proof (induction "[sep]" ls rule: join_js.induct)
  case 1
  then show ?case by simp
next
  case (2 x)
  then show ?case by (simp add: split_js_no_sep)
next
  case (3 x y ys)
  then show ?case by (simp add: split_js_append)
qed

lemma upTo_line:
  "LF \<notin> set l \<Longrightarrow> upTo ''\<newline>---'' (l @ s) = map_option ((@) l) (upTo ''\<newline>---'' s)"
  by (induction l) (auto simp: map_option_case split: option.splits)

lemma upTo_found: "upTo ''\<newline>---'' (''\<newline>---'' @ rest) = Some []"
  by simp

lemma upTo_next_line:
  assumes "l \<noteq> []" and "hd l \<noteq> CHR ''-''"
  shows "upTo ''\<newline>---'' (LF # l @ s) = map_option ((#) LF) (upTo ''\<newline>---'' (l @ s))"
  using assms by (cases l) auto

lemma join_js_Cons_nonempty: "join_js sep (l # ls) = l @ (if ls = [] then [] else sep @ join_js sep ls)"
  by (cases ls) auto

lemma upTo_lines:
  assumes "ls \<noteq> []" and "\<forall>l\<in>set ls. LF \<notin> set l \<and> l \<noteq> [] \<and> hd l \<noteq> CHR ''-''"
  shows "upTo ''\<newline>---'' (join_js [LF] ls @ ''\<newline>---'' @ rest) = Some (join_js [LF] ls)"
  using assms
proof (induction "[LF]" ls rule: join_js.induct)
  case 1
  then show ?case by simp
next
  case (2 x)
  then have "LF \<notin> set x" by simp
  then show ?case using upTo_line [of x "''\<newline>---'' @ rest"] by simp
next
  case (3 x y ys)
  then have x: "LF \<notin> set x" and y: "y \<noteq> []" "hd y \<noteq> CHR ''-''" by simp_all
  have ih: "upTo ''\<newline>---'' (join_js [LF] (y # ys) @ ''\<newline>---'' @ rest) = Some (join_js [LF] (y # ys))"
    using 3 by simp
  obtain t where t: "join_js [LF] (y # ys) = y @ t"
    using join_js_Cons_nonempty [of "[LF]" y ys] by blast
  have "upTo ''\<newline>---'' (LF # y @ (t @ ''\<newline>---'' @ rest))
          = map_option ((#) LF) (upTo ''\<newline>---'' (y @ (t @ ''\<newline>---'' @ rest)))"
    using y by (rule upTo_next_line)
  then have "upTo ''\<newline>---'' (LF # join_js [LF] (y # ys) @ ''\<newline>---'' @ rest)
          = Some (LF # join_js [LF] (y # ys))"
    using ih t by simp
  then show ?case
    using upTo_line [OF x, of "LF # join_js [LF] (y # ys) @ ''\<newline>---'' @ rest"] by simp
qed


lemma noLF_join_tags:
  "list_all (\<lambda>t. LF \<notin> set t) ts \<Longrightarrow> LF \<notin> set (join_js '', '' ts)"
  by (induction "'', ''" ts rule: join_js.induct) auto

lemma lines_ok:
  assumes "noLineBreaks c"
  shows "\<forall>l\<in>set (frontMatterLines c). LF \<notin> set l \<and> l \<noteq> [] \<and> hd l \<noteq> CHR ''-''"
  using assms
  by (auto simp: noLineBreaks_def noLF_def frontMatterLines_def optLine_def tagsLine_def
      noLF_join_tags split: option.splits if_splits)

lemma lines_nonempty: "frontMatterLines c \<noteq> []"
  by (simp add: frontMatterLines_def)

lemma matchFrontMatter_fileContent:
  assumes "noLineBreaks c"
  shows "matchFrontMatter (fileContent c) = Some (createFrontMatter c)"
proof -
  have "upTo ''\<newline>---'' (join_js [LF] (frontMatterLines c) @ ''\<newline>---'' @ rest)
          = Some (join_js [LF] (frontMatterLines c))" for rest
    using lines_nonempty lines_ok [OF assms] by (rule upTo_lines)
  then show ?thesis
    by (simp add: matchFrontMatter_def fileContent_def createFrontMatter_def)
qed

lemma extractFrontMatter_fileContent:
  assumes "noLineBreaks c"
  shows "extractFrontMatter (fileContent c) = Some (decodedMap c)"
proof -
  have "\<forall>l\<in>set (frontMatterLines c). LF \<notin> set l"
    using lines_ok [OF assms] by blast
  then have "split_js LF (createFrontMatter c) = frontMatterLines c"
    unfolding createFrontMatter_def using lines_nonempty by (intro split_join_lines)
  then show ?thesis
    by (simp add: extractFrontMatter_def matchFrontMatter_fileContent [OF assms] decodedMap_def)
qed

subsection \<open>What the decoder stores for each line\<close>

lemma trim_space: "trim (CHR '' '' # p) = trim p"
  by (simp add: trim_def isWhiteSpace_def)

lemma map_trim_split_space:
  "map trim (split_js sep (CHR '' '' # v)) = map trim (split_js sep v)" if "sep \<noteq> CHR '' ''"
  using that split_js_nonempty [of sep v]
  by (cases "split_js sep v") (auto simp: trim_space)

lemma parseLine_key:
  assumes "CHR '':'' \<notin> set k" and "trim k = k" and "k \<noteq> []" and "k \<noteq> ''__proto__''"
  shows "parseLine acc (k @ '': '' @ v) = acc(k \<mapsto> colonTrim v)"
proof -
  have "split_js (CHR '':'') (k @ CHR '':'' # CHR '' '' # v) = k # split_js (CHR '':'') (CHR '' '' # v)"
    using assms(1) by (rule split_js_append)
  moreover have "map trim (split_js (CHR '':'') (CHR '' '' # v)) = map trim (split_js (CHR '':'') v)"
    by (rule map_trim_split_space) simp
  ultimately have "map trim (split_js (CHR '':'') (k @ '': '' @ v))
               = k # map trim (split_js (CHR '':'') v)"
    using assms(2) by (simp del: split_js.simps)
  then show ?thesis
    using assms(3,4) split_js_nonempty [of "CHR '':''" v]
    by (simp add: parseLine_def colonTrim_def)
qed

lemma parseLine_fields:
  "parseLine acc (''name: '' @ v) = acc(''name'' \<mapsto> colonTrim v)"
  "parseLine acc (''email: '' @ v) = acc(''email'' \<mapsto> colonTrim v)"
  "parseLine acc (''phone: '' @ v) = acc(''phone'' \<mapsto> colonTrim v)"
  "parseLine acc (''company: '' @ v) = acc(''company'' \<mapsto> colonTrim v)"
  "parseLine acc (''title: '' @ v) = acc(''title'' \<mapsto> colonTrim v)"
  "parseLine acc (''tags: '' @ v) = acc(''tags'' \<mapsto> colonTrim v)"
  "parseLine acc (''last_contacted: '' @ v) = acc(''last_contacted'' \<mapsto> colonTrim v)"
  "parseLine acc (''next_contact: '' @ v) = acc(''next_contact'' \<mapsto> colonTrim v)"
  "parseLine acc (''contact_frequency: '' @ v) = acc(''contact_frequency'' \<mapsto> colonTrim v)"
  "parseLine acc (''created: '' @ v) = acc(''created'' \<mapsto> colonTrim v)"
  "parseLine acc (''modified: '' @ v) = acc(''modified'' \<mapsto> colonTrim v)"
  using parseLine_key [of "''name''" acc v] parseLine_key [of "''email''" acc v]
    parseLine_key [of "''phone''" acc v] parseLine_key [of "''company''" acc v]
    parseLine_key [of "''title''" acc v] parseLine_key [of "''tags''" acc v]
    parseLine_key [of "''last_contacted''" acc v] parseLine_key [of "''next_contact''" acc v]
    parseLine_key [of "''contact_frequency''" acc v] parseLine_key [of "''created''" acc v]
    parseLine_key [of "''modified''" acc v]
  by (simp_all add: trim_def isWhiteSpace_def)

lemmas parseLine_cons = parseLine_fields [unfolded append.simps]

lemma foldl_optLine:
  "foldl parseLine acc (optLine ''company'' v) = putIf (truthy v) ''company'' (colonTrim (interp v)) acc"
  "foldl parseLine acc (optLine ''title'' v) = putIf (truthy v) ''title'' (colonTrim (interp v)) acc"
  "foldl parseLine acc (optLine ''last_contacted'' v) = putIf (truthy v) ''last_contacted'' (colonTrim (interp v)) acc"
  "foldl parseLine acc (optLine ''next_contact'' v) = putIf (truthy v) ''next_contact'' (colonTrim (interp v)) acc"
  "foldl parseLine acc (optLine ''contact_frequency'' v) = putIf (truthy v) ''contact_frequency'' (colonTrim (interp v)) acc"
  by (auto simp: optLine_def putIf_def parseLine_cons fun_eq_iff)

lemma foldl_tagsLine:
  "foldl parseLine acc (tagsLine v)
     = putIf (v \<noteq> None \<and> v \<noteq> Some []) ''tags'' (colonTrim (join_js '', '' (case v of None \<Rightarrow> [] | Some ts \<Rightarrow> ts))) acc"
  by (auto simp: tagsLine_def putIf_def parseLine_cons fun_eq_iff split: option.splits)

lemma decodedMap_eq:
  "decodedMap c =
     (putIf (truthy (contact_frequency c)) ''contact_frequency'' (colonTrim (interp (contact_frequency c)))
     (putIf (truthy (next_contact c)) ''next_contact'' (colonTrim (interp (next_contact c)))
     (putIf (truthy (last_contacted c)) ''last_contacted'' (colonTrim (interp (last_contacted c)))
     (putIf (tags c \<noteq> None \<and> tags c \<noteq> Some []) ''tags''
        (colonTrim (join_js '', '' (case tags c of None \<Rightarrow> [] | Some ts \<Rightarrow> ts)))
     (putIf (truthy (title c)) ''title'' (colonTrim (interp (title c)))
     (putIf (truthy (company c)) ''company'' (colonTrim (interp (company c)))
       [''name'' \<mapsto> colonTrim (interp (name c)),
        ''email'' \<mapsto> colonTrim (interp (email c)),
        ''phone'' \<mapsto> colonTrim (interp (phone c))]))))))
     (''created'' \<mapsto> colonTrim (interp (created c)),
      ''modified'' \<mapsto> colonTrim (interp (modified c)))"
  unfolding decodedMap_def frontMatterLines_def
  by (simp add: foldl_optLine foldl_tagsLine parseLine_cons)

lemma decodedMap_fields:
  "decodedMap c ''name'' = Some (colonTrim (interp (name c)))"
  "decodedMap c ''email'' = Some (colonTrim (interp (email c)))"
  "decodedMap c ''phone'' = Some (colonTrim (interp (phone c)))"
  "decodedMap c ''company'' = (if truthy (company c) then Some (colonTrim (interp (company c))) else None)"
  "decodedMap c ''title'' = (if truthy (title c) then Some (colonTrim (interp (title c))) else None)"
  "decodedMap c ''notes'' = None"
  "decodedMap c ''tags'' = (case tags c of None \<Rightarrow> None
      | Some ts \<Rightarrow> if ts = [] then None else Some (colonTrim (join_js '', '' ts)))"
  "decodedMap c ''last_contacted'' = (if truthy (last_contacted c) then Some (colonTrim (interp (last_contacted c))) else None)"
  "decodedMap c ''next_contact'' = (if truthy (next_contact c) then Some (colonTrim (interp (next_contact c))) else None)"
  "decodedMap c ''contact_frequency'' = (if truthy (contact_frequency c) then Some (colonTrim (interp (contact_frequency c))) else None)"
  "decodedMap c ''created'' = Some (colonTrim (interp (created c)))"
  "decodedMap c ''modified'' = Some (colonTrim (interp (modified c)))"
  unfolding decodedMap_eq
  by (simp_all add: putIf_def split: option.splits)

lemma trim_trimmed: "trimmed s \<Longrightarrow> trim s = s"
proof (cases "s = []")
  case True
  then show ?thesis by (simp add: trim_def)
next
  case False
  assume "trimmed s"
  with False have h: "\<not> isWhiteSpace (hd s)" and l: "\<not> isWhiteSpace (last s)"
    by (simp_all add: trimmed_def)
  from False h have a: "dropWhile isWhiteSpace s = s"
    by (cases s) simp_all
  from False l have "dropWhile isWhiteSpace (rev s) = rev s"
    by (cases "rev s") (simp_all add: last_rev [symmetric] del: last_rev)
  with a show ?thesis by (simp add: trim_def)
qed

lemma join_split: "join_js [sep] (split_js sep s) = s"
proof (induction s)
  case Nil
  then show ?case by simp
next
  case (Cons c s)
  obtain p ps where sp: "split_js sep s = p # ps"
    using split_js_nonempty [of sep s] by (cases "split_js sep s") auto
  with Cons show ?case
    by (cases ps) auto
qed

lemma colonTrim_lineSafe: "lineSafe s \<Longrightarrow> colonTrim s = s"
proof -
  assume "lineSafe s"
  then have "\<forall>p\<in>set (split_js (CHR '':'') s). trim p = p"
    by (simp add: lineSafe_def list_all_iff trim_trimmed)
  then have "map trim (split_js (CHR '':'') s) = split_js (CHR '':'') s"
    by (simp add: map_idI)
  then show ?thesis
    using join_split [of "CHR '':''" s] by (simp add: colonTrim_def)
qed

lemma trim_Nil_iff: "trim s = [] \<longleftrightarrow> (\<forall>ch\<in>set s. isWhiteSpace ch)"
proof
  assume "trim s = []"
  then have "\<forall>ch\<in>set (dropWhile isWhiteSpace s). isWhiteSpace ch"
    by (simp add: trim_def dropWhile_eq_Nil_conv)
  then have "dropWhile isWhiteSpace s = []"
    using hd_dropWhile [of isWhiteSpace s] hd_in_set by blast
  then show "\<forall>ch\<in>set s. isWhiteSpace ch"
    by (simp add: dropWhile_eq_Nil_conv)
next
  assume "\<forall>ch\<in>set s. isWhiteSpace ch"
  then have d: "dropWhile isWhiteSpace s = []"
    by (simp add: dropWhile_eq_Nil_conv)
  show "trim s = []"
    by (simp only: trim_def d rev.simps dropWhile.simps)
qed

lemma split_js_two: "sep \<in> set s \<Longrightarrow> \<exists>a b bs. split_js sep s = a # b # bs"
proof (induction s)
  case Nil
  then show ?case by simp
next
  case (Cons c s)
  obtain p ps where sp: "split_js sep s = p # ps"
    using split_js_nonempty [of sep s] by (cases "split_js sep s") auto
  show ?case
  proof (cases "c = sep")
    case True
    with sp show ?thesis by simp
  next
    case False
    with Cons obtain a b bs where "split_js sep s = a # b # bs" by auto
    with False show ?thesis by simp
  qed
qed

lemma colonTrim_visible: "visible n \<Longrightarrow> colonTrim n \<noteq> []"
proof (cases "CHR '':'' \<in> set n")
  case True
  then obtain a b bs where "split_js (CHR '':'') n = a # b # bs"
    using split_js_two by blast
  then show ?thesis by (simp add: colonTrim_def)
next
  case False
  assume "visible n"
  then have "trim n \<noteq> []"
    by (auto simp: trim_Nil_iff visible_def list_ex_iff)
  with False show ?thesis by (simp add: colonTrim_def split_js_no_sep)
qed

lemma decode_fileContent:
  assumes "noLineBreaks c" and "colonTrim (interp (name c)) \<noteq> []"
  shows "getContactFromFile (TFile p (fileContent c) ct mt) = Some \<lparr>
     name = Some (colonTrim (interp (name c))),
     email = Some (colonTrim (interp (email c))),
     phone = Some (colonTrim (interp (phone c))),
     company = decodedMap c ''company'',
     title = decodedMap c ''title'',
     notes' = None,
     tags = (case decodedMap c ''tags'' of None \<Rightarrow> None
             | Some t \<Rightarrow> if t = [] then None else Some (map trim (split_js (CHR '','') t))),
     created = orElse (decodedMap c ''created'') (Some (showNat ct)),
     modified = orElse (decodedMap c ''modified'') (Some (showNat mt)),
     last_contacted = decodedMap c ''last_contacted'',
     next_contact = decodedMap c ''next_contact'',
     contact_frequency = decodedMap c ''contact_frequency'' \<rparr>"
proof -
  have e: "orElse (Some x) (Some []) = Some x" for x
    by (simp add: orElse_def truthy_def)
  show ?thesis
    using assms(2)
    by (simp add: getContactFromFile_def extractFrontMatter_fileContent [OF assms(1)]
        decodedMap_fields(1,2,3,6) truthy_def e)
qed

lemma colonTrim_undefined: "colonTrim ''undefined'' = ''undefined''"
  by (simp add: colonTrim_def trim_def isWhiteSpace_def)

lemma fileContent_head:
  "\<exists>rest. fileContent c = ''---\<newline>name: '' @ interp (name c) @ ''\<newline>email: '' @ interp (email c)
      @ ''\<newline>phone: '' @ interp (phone c) @ LF # rest"
proof -
  obtain l ls where "optLine ''company'' (company c) @ optLine ''title'' (title c)
      @ tagsLine (tags c) @ optLine ''last_contacted'' (last_contacted c)
      @ optLine ''next_contact'' (next_contact c)
      @ optLine ''contact_frequency'' (contact_frequency c)
      @ [''created: '' @ interp (created c), ''modified: '' @ interp (modified c)] = l # ls"
    by (cases "optLine ''company'' (company c) @ optLine ''title'' (title c)
      @ tagsLine (tags c) @ optLine ''last_contacted'' (last_contacted c)
      @ optLine ''next_contact'' (next_contact c)
      @ optLine ''contact_frequency'' (contact_frequency c)
      @ [''created: '' @ interp (created c), ''modified: '' @ interp (modified c)]") simp_all
  then show ?thesis
    by (simp add: fileContent_def createFrontMatter_def frontMatterLines_def)
qed

subsection \<open>Undefined email and phone\<close>

text \<open>
  Claim C9, as the claim states it, fails for two kinds of contact with an undefined
  email. With an empty name the document has the line \<open>email: undefined\<close> but decodes
  to no contact at all. With a line feed in another field (here \<open>company\<close>) the text
  after it is read as a line of its own, and a later \<open>email\<close> line wins.
\<close>

theorem undefined_fields_counterexample:
  "email ((sampleContact '''')\<lparr>email := None\<rparr>) = None
   \<and> getContactFromFile
        (TFile ''Contacts/.md'' (fileContent ((sampleContact '''')\<lparr>email := None\<rparr>)) 3 4) = None
   \<and> email ((sampleContact ''Eve'')
          \<lparr>email := None, company := Some ''ACME\<newline>email: eve@example.org''\<rparr>) = None
   \<and> map_option email (getContactFromFile
        (TFile ''Contacts/Eve.md''
           (fileContent ((sampleContact ''Eve'')
              \<lparr>email := None, company := Some ''ACME\<newline>email: eve@example.org''\<rparr>)) 3 4))
       = Some (Some ''eve@example.org'')"
  by (simp add: getContactFromFile_def extractFrontMatter_def matchFrontMatter_def
      fileContent_def createFrontMatter_def frontMatterLines_def sampleContact_def optLine_def
      tagsLine_def interp_def truthy_def orElse_def parseLine_def trim_def isWhiteSpace_def)

text \<open>
  Claim C9, amended. For every contact whose fields hold no line feed and whose name is
  present with a character that is not white space: when its email is undefined, the
  encoded document contains the line \<open>email: undefined\<close> and decodes to a contact whose
  email is the nine characters \<open>undefined\<close>; the same holds for an undefined phone.
\<close>

theorem undefined_fields:
  assumes "noLineBreaks c" and "name c = Some n" and "visible n"
  shows "(email c = None \<longrightarrow>
            (\<exists>pre rest. fileContent c = pre @ ''\<newline>email: undefined\<newline>'' @ rest)
          \<and> (\<exists>c'. getContactFromFile (TFile p (fileContent c) ct mt) = Some c'
                 \<and> email c' = Some ''undefined''))
       \<and> (phone c = None \<longrightarrow>
            (\<exists>pre rest. fileContent c = pre @ ''\<newline>phone: undefined\<newline>'' @ rest)
          \<and> (\<exists>c'. getContactFromFile (TFile p (fileContent c) ct mt) = Some c'
                 \<and> phone c' = Some ''undefined''))"
proof -
  have v: "colonTrim (interp (name c)) \<noteq> []"
    using assms(2,3) by (simp add: interp_def colonTrim_visible)
  note d = decode_fileContent [OF assms(1) v, of p ct mt]
  obtain rest where r: "fileContent c = ''---\<newline>name: '' @ interp (name c) @ ''\<newline>email: ''
      @ interp (email c) @ ''\<newline>phone: '' @ interp (phone c) @ LF # rest"
    using fileContent_head by blast
  have e: "\<exists>pre rest. fileContent c = pre @ ''\<newline>email: undefined\<newline>'' @ rest" if "email c = None"
    using r that
    by (intro exI [of _ "''---\<newline>name: '' @ interp (name c)"]
        exI [of _ "''phone: '' @ interp (phone c) @ LF # rest"]) (simp add: interp_def)
  have ph: "\<exists>pre rest. fileContent c = pre @ ''\<newline>phone: undefined\<newline>'' @ rest" if "phone c = None"
    using r that
    by (intro exI [of _ "''---\<newline>name: '' @ interp (name c) @ ''\<newline>email: '' @ interp (email c)"]
        exI [of _ rest]) (simp add: interp_def)
  show ?thesis
    using d e ph by (simp add: interp_def colonTrim_undefined)
qed

theorem undefined_fields_witness:
  "noLineBreaks ((sampleContact ''Eve'')\<lparr>email := None, phone := None\<rparr>)
   \<and> name ((sampleContact ''Eve'')\<lparr>email := None, phone := None\<rparr>) = Some ''Eve''
   \<and> visible ''Eve''
   \<and> email ((sampleContact ''Eve'')\<lparr>email := None, phone := None\<rparr>) = None
   \<and> phone ((sampleContact ''Eve'')\<lparr>email := None, phone := None\<rparr>) = None
   \<and> (\<exists>pre rest. fileContent ((sampleContact ''Eve'')\<lparr>email := None, phone := None\<rparr>)
          = pre @ ''\<newline>email: undefined\<newline>'' @ rest)
   \<and> (\<exists>c'. getContactFromFile (TFile ''Contacts/Eve.md''
                (fileContent ((sampleContact ''Eve'')\<lparr>email := None, phone := None\<rparr>)) 3 4) = Some c'
          \<and> email c' = Some ''undefined'')
   \<and> (\<exists>pre rest. fileContent ((sampleContact ''Eve'')\<lparr>email := None, phone := None\<rparr>)
          = pre @ ''\<newline>phone: undefined\<newline>'' @ rest)
   \<and> (\<exists>c'. getContactFromFile (TFile ''Contacts/Eve.md''
                (fileContent ((sampleContact ''Eve'')\<lparr>email := None, phone := None\<rparr>)) 3 4) = Some c'
          \<and> phone c' = Some ''undefined'')"
proof -
  let ?c = "(sampleContact ''Eve'')\<lparr>email := None, phone := None\<rparr>"
  have a: "noLineBreaks ?c"
    by (simp add: noLineBreaks_def noLF_def sampleContact_def interp_def)
  have b: "name ?c = Some ''Eve''"
    by (simp add: sampleContact_def)
  have c: "visible ''Eve''"
    by (simp add: visible_def isWhiteSpace_def)
  have d: "email ?c = None" "phone ?c = None"
    by simp_all
  show ?thesis
    using a b c d undefined_fields [OF a b c, of "''Contacts/Eve.md''" 3 4] by simp
qed

subsection \<open>Tags\<close>

lemma join_js_Cons: "join_js sep (t # ts) = t @ (if ts = [] then [] else sep @ join_js sep ts)"
  by (cases ts) auto

lemma no_colon_join_tags:
  "list_all tagSafe ts \<Longrightarrow> CHR '':'' \<notin> set (join_js '', '' ts)"
  by (induction "'', ''" ts rule: join_js.induct) (auto simp: tagSafe_def)

lemma noLF_tags: "list_all tagSafe ts \<Longrightarrow> list_all (\<lambda>t. LF \<notin> set t) ts"
  by (induction ts) (auto simp: tagSafe_def)

lemma last_join_tags:
  "ts \<noteq> [] \<Longrightarrow> list_all tagSafe ts \<Longrightarrow> last (join_js '', '' ts) = last (last ts)"
  by (induction "'', ''" ts rule: join_js.induct) (auto simp: tagSafe_def join_js_Cons)

lemma join_tags_nonempty:
  "ts \<noteq> [] \<Longrightarrow> list_all tagSafe ts \<Longrightarrow> join_js '', '' ts \<noteq> []"
  by (cases ts) (auto simp: tagSafe_def join_js_Cons)

lemma trimmed_join_tags:
  assumes "ts \<noteq> []" and "list_all tagSafe ts"
  shows "trimmed (join_js '', '' ts)"
proof -
  obtain t ts' where ts: "ts = t # ts'"
    using assms(1) by (cases ts) auto
  with assms(2) have t: "t \<noteq> []" "\<not> isWhiteSpace (hd t)"
    by (auto simp: tagSafe_def trimmed_def)
  then have h: "\<not> isWhiteSpace (hd (join_js '', '' ts))"
    unfolding ts join_js_Cons by simp
  have "tagSafe (last ts)"
    using assms by (simp add: list_all_iff)
  then have "\<not> isWhiteSpace (last (last ts))"
    by (auto simp: tagSafe_def trimmed_def)
  then have "\<not> isWhiteSpace (last (join_js '', '' ts))"
    using last_join_tags [OF assms] by simp
  with h show ?thesis by (simp add: trimmed_def)
qed

lemma colonTrim_tags:
  assumes "ts \<noteq> []" and "list_all tagSafe ts"
  shows "colonTrim (join_js '', '' ts) = join_js '', '' ts"
  using no_colon_join_tags [OF assms(2)] trimmed_join_tags [OF assms]
  by (simp add: colonTrim_def split_js_no_sep trim_trimmed)

lemma split_tags:
  assumes "ts \<noteq> []" and "list_all tagSafe ts"
  shows "map trim (split_js (CHR '','') (join_js '', '' ts)) = ts"
  using assms
proof (induction "'', ''" ts rule: join_js.induct)
  case 1
  then show ?case by simp
next
  case (2 x)
  then show ?case by (simp add: tagSafe_def split_js_no_sep trim_trimmed)
next
  case (3 x y ys)
  then have x: "CHR '','' \<notin> set x" "trim x = x"
    by (simp_all add: tagSafe_def trim_trimmed)
  have ih: "map trim (split_js (CHR '','') (join_js '', '' (y # ys))) = y # ys"
    using 3 by simp
  have "split_js (CHR '','') (x @ CHR '','' # CHR '' '' # join_js '', '' (y # ys))
          = x # split_js (CHR '','') (CHR '' '' # join_js '', '' (y # ys))"
    using x(1) by (rule split_js_append)
  moreover have "map trim (split_js (CHR '','') (CHR '' '' # join_js '', '' (y # ys)))
          = map trim (split_js (CHR '','') (join_js '', '' (y # ys)))"
    by (rule map_trim_split_space) simp
  ultimately show ?case
    using x(2) ih by (simp del: split_js.simps)
qed

lemma roundTripSafe_noLineBreaks: "roundTripSafe c \<Longrightarrow> noLineBreaks c"
  by (auto simp: roundTripSafe_def noLineBreaks_def noLF_def lineSafeOpt_def lineSafe_def
      interp_def noLF_tags split: option.splits)

lemma colonTrim_opt: "lineSafeOpt v \<Longrightarrow> truthy v \<Longrightarrow> Some (colonTrim (interp v)) = v"
  by (cases v) (simp_all add: lineSafeOpt_def truthy_def interp_def colonTrim_lineSafe)

subsection \<open>The round trip\<close>

lemmas decode_defs = getContactFromFile_def extractFrontMatter_def matchFrontMatter_def
      fileContent_def createFrontMatter_def frontMatterLines_def sampleContact_def optLine_def
      tagsLine_def interp_def truthy_def orElse_def parseLine_def trim_def isWhiteSpace_def

text \<open>
  Claim C1, as the claim states it, fails. The notes are written into the body of the
  document and read from its frontmatter, so they never come back; a name with a
  leading space comes back trimmed; an undefined email comes back as the text
  \<open>undefined\<close>; a tag with a comma comes back as two tags; and a contact with an empty
  name does not decode at all.
\<close>

theorem roundtrip_counterexample:
  "map_option notes' (getContactFromFile (TFile ''Contacts/Bob.md''
       (fileContent ((sampleContact ''Bob'')\<lparr>notes' := Some ''hello''\<rparr>)) 3 4)) = Some None
   \<and> map_option name (getContactFromFile (TFile ''Contacts/-Bob.md''
       (fileContent (sampleContact '' Bob'')) 3 4)) = Some (Some ''Bob'')
   \<and> map_option email (getContactFromFile (TFile ''Contacts/Bob.md''
       (fileContent ((sampleContact ''Bob'')\<lparr>email := None\<rparr>)) 3 4)) = Some (Some ''undefined'')
   \<and> map_option tags (getContactFromFile (TFile ''Contacts/Bob.md''
       (fileContent ((sampleContact ''Bob'')\<lparr>tags := Some [''a,b'']\<rparr>)) 3 4))
       = Some (Some [''a'', ''b''])
   \<and> getContactFromFile (TFile ''Contacts/.md'' (fileContent (sampleContact '''')) 3 4) = None"
  by (simp add: decode_defs)

text \<open>
  Claim C1, amended. For every contact that is safe for the round trip (name present,
  not empty and line-safe; email and phone present and line-safe; the other optional
  strings absent or line-safe; tags safe; no line feed in \<open>created\<close> or \<open>modified\<close>),
  the encoded document decodes to a contact that is equal to the original on name,
  email and phone, equal on each of company, title, tags, last_contacted, next_contact
  and contact_frequency that was not empty, and has the field absent where it was
  absent or empty. Nothing is said about the notes.
\<close>

theorem roundtrip:
  assumes "roundTripSafe c"
  shows "\<exists>c'. getContactFromFile (TFile p (fileContent c) ct mt) = Some c'
    \<and> name c' = name c \<and> email c' = email c \<and> phone c' = phone c
    \<and> company c' = (if truthy (company c) then company c else None)
    \<and> title c' = (if truthy (title c) then title c else None)
    \<and> tags c' = (if tags c = Some [] then None else tags c)
    \<and> last_contacted c' = (if truthy (last_contacted c) then last_contacted c else None)
    \<and> next_contact c' = (if truthy (next_contact c) then next_contact c else None)
    \<and> contact_frequency c' = (if truthy (contact_frequency c) then contact_frequency c else None)"
proof -
  obtain n e ph where n: "name c = Some n" "n \<noteq> []" "lineSafe n"
    and e: "email c = Some e" "lineSafe e" and ph: "phone c = Some ph" "lineSafe ph"
    using assms by (auto simp: roundTripSafe_def split: option.splits)
  have opt: "lineSafeOpt (company c)" "lineSafeOpt (title c)" "lineSafeOpt (last_contacted c)"
    "lineSafeOpt (next_contact c)" "lineSafeOpt (contact_frequency c)"
    using assms by (simp_all add: roundTripSafe_def)
  have nl: "noLineBreaks c"
    using assms by (rule roundTripSafe_noLineBreaks)
  have v: "colonTrim (interp (name c)) \<noteq> []"
    using n by (simp add: interp_def colonTrim_lineSafe)
  note d = decode_fileContent [OF nl v, of p ct mt]
  have tg: "(case decodedMap c ''tags'' of None \<Rightarrow> None
             | Some t \<Rightarrow> if t = [] then None else Some (map trim (split_js (CHR '','') t)))
           = (if tags c = Some [] then None else tags c)"
  proof (cases "tags c")
    case None
    then show ?thesis by (simp add: decodedMap_fields(7))
  next
    case (Some ts)
    show ?thesis
    proof (cases "ts = []")
      case True
      with Some show ?thesis by (simp add: decodedMap_fields(7))
    next
      case False
      have safe: "list_all tagSafe ts"
        using assms Some by (simp add: roundTripSafe_def)
      show ?thesis
        using Some False colonTrim_tags [OF False safe] join_tags_nonempty [OF False safe]
          split_tags [OF False safe]
        by (simp add: decodedMap_fields(7))
    qed
  qed
  have three: "Some (colonTrim (interp (name c))) = name c"
    "Some (colonTrim (interp (email c))) = email c"
    "Some (colonTrim (interp (phone c))) = phone c"
    using n e ph by (simp_all add: interp_def colonTrim_lineSafe)
  show ?thesis
    unfolding d
    using tg opt three
    by (simp add: decodedMap_fields(4,5,8,9,10) colonTrim_opt)
qed

theorem roundtrip_witness:
  "roundTripSafe fullContact
   \<and> getContactFromFile (TFile ''Contacts/Ann-Lee.md'' (fileContent fullContact) 3 4)
       = Some (fullContact\<lparr>notes' := None\<rparr>)"
proof -
  have a: "roundTripSafe fullContact"
    by (simp add: roundTripSafe_def fullContact_def lineSafe_def lineSafeOpt_def tagSafe_def
        trimmed_def noLF_def interp_def isWhiteSpace_def)
  have b: "getContactFromFile (TFile ''Contacts/Ann-Lee.md'' (fileContent fullContact) 3 4)
       = Some (fullContact\<lparr>notes' := None\<rparr>)"
    using a roundtrip [OF a, of "''Contacts/Ann-Lee.md''" 3 4]
    by (simp add: decode_defs fullContact_def)
  show ?thesis using a b by simp
qed

subsection \<open>Listing the contacts\<close>

text \<open>
  \<open>getAllContacts\<close> returns, in the vault's order, what decodes among the markdown
  files whose path starts with the folder's name; a file without a frontmatter block
  decodes to nothing.
\<close>

lemma collectContacts_eq:
  "collectContacts files contacts = contacts @ List.map_filter getContactFromFile files"
  by (induction files arbitrary: contacts) (auto simp: List.map_filter_simps split: option.splits)

lemma getAllContacts_eq:
  "getAllContacts contactsFolder v =
     (if getAbstractFileByPath v contactsFolder = None then []
      else List.map_filter getContactFromFile
             (filter (\<lambda>file. prefix contactsFolder (path file)) (getMarkdownFiles v)))"
  by (simp add: getAllContacts_def collectContacts_eq split: option.splits)

lemma no_frontmatter_excluded:
  "matchFrontMatter (data file) = None \<Longrightarrow> getContactFromFile file = None"
  by (simp add: getContactFromFile_def extractFrontMatter_def)

text \<open>
  Claim C6 at an input where the code departs from it. The filter is
  \<open>file.path.startsWith(this.contactsFolder)\<close>, with no separator after the folder's
  name, while \<open>createContact\<close> and \<open>updateContact\<close> address the documents as
  \<open>contactsFolder/fileName\<close>. With the storage folder \<open>Contacts\<close> and a second folder
  \<open>Contacts-Archive\<close> beside it, the listing holds the contact of
  \<open>Contacts-Archive/Eve.md\<close>, a document that does not lie under the storage folder.
\<close>

theorem getAllContacts_sibling_folder:
  "getAllContacts ''Contacts''
     [TFolder ''Contacts'',
      TFile ''Contacts/Ann-Lee.md'' ''---\<newline>name: Ann Lee\<newline>phone: 555 0101\<newline>---'' 3 4,
      TFolder ''Contacts-Archive'',
      TFile ''Contacts-Archive/Eve.md'' ''---\<newline>name: Eve\<newline>phone: 555 0102\<newline>---'' 5 6]
   = [\<lparr>name = Some ''Ann Lee'', email = Some '''', phone = Some ''555 0101'', company = None,
        title = None, notes' = None, tags = None, created = Some ''3'', modified = Some ''4'',
        last_contacted = None, next_contact = None, contact_frequency = None\<rparr>,
      \<lparr>name = Some ''Eve'', email = Some '''', phone = Some ''555 0102'', company = None,
        title = None, notes' = None, tags = None, created = Some ''5'', modified = Some ''6'',
        last_contacted = None, next_contact = None, contact_frequency = None\<rparr>]"
  by (simp add: getAllContacts_def getAbstractFileByPath_def getMarkdownFiles_def suffix_def
      getContactFromFile_def extractFrontMatter_def matchFrontMatter_def truthy_def orElse_def
      parseLine_def trim_def isWhiteSpace_def showNat.simps digitChar_def)

section \<open>Properties of the dates\<close>

subsection \<open>Days and years\<close>

lemma div_step:
  fixes a k :: int
  assumes "0 < k"
  shows "(a + 1) div k = a div k + (if (a + 1) mod k = 0 then 1 else 0)"
proof -
  define q r where "q = a div k" and "r = a mod k"
  have eq: "a = k * q + r" and r: "0 \<le> r" "r < k"
    using assms by (simp_all add: q_def r_def)
  show ?thesis
  proof (cases "r + 1 = k")
    case True
    then have "a + 1 = k * (q + 1) + 0"
      using eq by (simp add: distrib_left)
    then have "(a + 1) div k = q + 1" "(a + 1) mod k = 0"
      using assms int_div_pos_eq [of "a + 1" k "q + 1" 0]
        int_mod_pos_eq [of "a + 1" k "q + 1" 0] by simp_all
    then show ?thesis by (simp add: q_def)
  next
    case False
    with r have lt: "r + 1 < k" by simp
    have "a + 1 = k * q + (r + 1)"
      using eq by simp
    then have "(a + 1) div k = q" "(a + 1) mod k = r + 1"
      using lt r int_div_pos_eq [of "a + 1" k q "r + 1"]
        int_mod_pos_eq [of "a + 1" k q "r + 1"] by simp_all
    with r show ?thesis by (simp add: q_def)
  qed
qed

lemma mod_shift:
  "(y - 1968) mod 4 = y mod 4" "(y - 1900) mod 100 = y mod 100"
  "(y - 1600) mod 400 = y mod (400::int)"
proof -
  have "(y + 4 * (- 492)) mod 4 = y mod 4" "(y + 100 * (- 19)) mod 100 = y mod 100"
    "(y + 400 * (- 4)) mod 400 = y mod 400"
    by (rule mod_mult_self2)+
  then show "(y - 1968) mod 4 = y mod 4" "(y - 1900) mod 100 = y mod 100"
    "(y - 1600) mod 400 = y mod (400::int)"
    by simp_all
qed

lemma DayFromYear_next: "DayFromYear (y + 1) = DayFromYear y + DaysInYear y"
proof -
  define A B C where "A = (y - 1969) div 4" and "B = (y - 1901) div 100"
    and "C = (y - 1601) div 400"
  define P4 P100 P400 where "P4 \<longleftrightarrow> y mod 4 = 0" and "P100 \<longleftrightarrow> y mod 100 = 0"
    and "P400 \<longleftrightarrow> y mod 400 = 0"
  have a: "(y - 1968) div 4 = A + (if P4 then 1 else 0)"
    using div_step [of 4 "y - 1969"] mod_shift(1) [of y] by (simp add: A_def P4_def)
  have b: "(y - 1900) div 100 = B + (if P100 then 1 else 0)"
    using div_step [of 100 "y - 1901"] mod_shift(2) [of y] by (simp add: B_def P100_def)
  have c: "(y - 1600) div 400 = C + (if P400 then 1 else 0)"
    using div_step [of 400 "y - 1601"] mod_shift(3) [of y] by (simp add: C_def P400_def)
  have d: "P100 \<Longrightarrow> P4" "P400 \<Longrightarrow> P100"
    unfolding P4_def P100_def P400_def mod_eq_0_iff_dvd
    using dvd_trans [of 4 100 y] dvd_trans [of 100 400 y] by simp_all
  have next_year: "DayFromYear (y + 1) = 365 * (y - 1969) + (y - 1968) div 4 - (y - 1900) div 100
      + (y - 1600) div 400"
    by (simp add: DayFromYear_def)
  have this_year: "DayFromYear y = 365 * (y - 1970) + A - B + C"
    by (simp add: DayFromYear_def A_def B_def C_def)
  have days: "DaysInYear y = (if \<not> P4 then 365 else if \<not> P100 then 366
      else if \<not> P400 then 365 else 366)"
    by (simp only: DaysInYear_def P4_def P100_def P400_def)
  show ?thesis
    unfolding next_year this_year days a b c
    using d by (cases P4; cases P100; cases P400; simp)
qed

lemma DayFromYear_bounds:
  "400 * DayFromYear y < 146097 * (y - 1970) + 593"
  "146097 * (y - 1970) - 607 < 400 * DayFromYear y"
proof -
  define A B C where "A = (y - 1969) div 4" and "B = (y - 1901) div 100"
    and "C = (y - 1601) div 400"
  define a b c where "a = (y - 1969) mod 4" and "b = (y - 1901) mod 100"
    and "c = (y - 1601) mod 400"
  have eqs: "y - 1969 = 4 * A + a" "y - 1901 = 100 * B + b" "y - 1601 = 400 * C + c"
    by (simp_all add: A_def B_def C_def a_def b_def c_def)
  have rs: "0 \<le> a" "a < 4" "0 \<le> b" "b < 100" "0 \<le> c" "c < 400"
    by (simp_all add: a_def b_def c_def)
  have dfy: "DayFromYear y = 365 * (y - 1970) + A - B + C"
    by (simp add: DayFromYear_def A_def B_def C_def)
  have A4: "400 * A = 100 * (y - 1969) - 100 * a" and B4: "400 * B = 4 * (y - 1901) - 4 * b"
    and C4: "400 * C = (y - 1601) - c"
    using eqs by simp_all
  have "400 * DayFromYear y = 146000 * (y - 1970) + 400 * A - 400 * B + 400 * C"
    unfolding dfy by (simp add: algebra_simps)
  then have e: "400 * DayFromYear y = 146097 * (y - 1970) + 193 - 100 * a + 4 * b - c"
    unfolding A4 B4 C4 by simp
  show "400 * DayFromYear y < 146097 * (y - 1970) + 593"
    unfolding e using rs by simp
  show "146097 * (y - 1970) - 607 < 400 * DayFromYear y"
    unfolding e using rs by simp
qed

lemma DaysInYear_cases: "DaysInYear y = 365 \<or> DaysInYear y = 366"
  by (simp add: DaysInYear_def)

lemma YearFromDay_bounds:
  "DayFromYear (YearFromDay d) \<le> d" "d < DayFromYear (YearFromDay d + 1)"
proof -
  define x where "x = (400 * d) div 146097"
  define r where "r = (400 * d) mod 146097"
  define y where "y = 1970 + x"
  have eq: "400 * d = 146097 * x + r" and r: "0 \<le> r" "r < 146097"
    by (simp_all add: x_def r_def)
  have up: "400 * DayFromYear (y - 1) < 146097 * (x - 1) + 593"
    using DayFromYear_bounds(1) [of "y - 1"] by (simp add: y_def)
  have lo: "146097 * (x + 2) - 607 < 400 * DayFromYear (y + 2)"
    using DayFromYear_bounds(2) [of "y + 2"] by (simp add: y_def)
  have below: "DayFromYear (y - 1) \<le> d"
    using up eq r by simp
  have above: "d < DayFromYear (y + 2)"
    using lo eq r by simp
  have Y: "YearFromDay d = (if DayFromYear (y + 1) \<le> d then y + 1
      else if DayFromYear y \<le> d then y else y - 1)"
    by (simp add: YearFromDay_def Let_def y_def x_def)
  have two: "y + 1 + 1 = y + 2" by simp
  show "DayFromYear (YearFromDay d) \<le> d"
    unfolding Y using below by simp
  show "d < DayFromYear (YearFromDay d + 1)"
    unfolding Y using above by (simp add: two)
qed

lemma DayWithinYear_bounds:
  "0 \<le> DayWithinYear t" "DayWithinYear t < 365 + InLeapYear t"
proof -
  have a: "DayFromYear (YearFromTime t) \<le> Day t"
    and b: "Day t < DayFromYear (YearFromTime t + 1)"
    unfolding YearFromTime_def by (rule YearFromDay_bounds)+
  show "0 \<le> DayWithinYear t"
    using a by (simp add: DayWithinYear_def)
  have "DaysInYear (YearFromTime t) = 365 + InLeapYear t"
    using DaysInYear_cases [of "YearFromTime t"] by (auto simp: InLeapYear_def)
  then show "DayWithinYear t < 365 + InLeapYear t"
    using b by (simp add: DayWithinYear_def DayFromYear_next)
qed

lemma InLeapYear_cases: "InLeapYear t = 0 \<or> InLeapYear t = 1"
  by (simp add: InLeapYear_def)

lemma MonthFromTime_bounds: "0 \<le> MonthFromTime t" "MonthFromTime t \<le> 11"
  by (simp_all add: MonthFromTime_def Let_def)

lemma DateFromTime_bounds: "1 \<le> DateFromTime t" "DateFromTime t \<le> 31"
proof -
  define d l where "d = DayWithinYear t" and "l = InLeapYear t"
  have b: "0 \<le> d" "d < 365 + l" "l = 0 \<or> l = 1"
    using DayWithinYear_bounds [of t] InLeapYear_cases [of t] by (simp_all add: d_def l_def)
  have D: "DateFromTime t = d - monthStart
      (if d < 31 then 0 else if d < 59 + l then 1 else if d < 90 + l then 2
         else if d < 120 + l then 3 else if d < 151 + l then 4
         else if d < 181 + l then 5 else if d < 212 + l then 6
         else if d < 243 + l then 7 else if d < 273 + l then 8
         else if d < 304 + l then 9 else if d < 334 + l then 10 else 11) l + 1"
    by (simp add: DateFromTime_def MonthFromTime_def Let_def d_def l_def)
  show "1 \<le> DateFromTime t" "DateFromTime t \<le> 31"
    unfolding D using b by (auto simp: monthStart_def)
qed












lemma time_split: "Day t * msPerDay + TimeWithinDay t = t"
  by (simp add: Day_def TimeWithinDay_def)



lemma HourFromTime_shift: "HourFromTime (k * msPerDay + x) = HourFromTime x"
proof -
  have e: "k * msPerDay + x = (k * 24) * 3600000 + x"
    by (simp add: msPerDay_def)
  have "(k * msPerDay + x) div 3600000 = k * 24 + x div 3600000"
    unfolding e by (rule div_mult_self3) simp
  then show ?thesis
    unfolding HourFromTime_def using mod_mult_self3 [of k 24 "x div 3600000"] by simp
qed

lemma MinFromTime_shift: "MinFromTime (k * msPerDay + x) = MinFromTime x"
proof -
  have e: "k * msPerDay + x = ((k * 24) * 60) * 60000 + x"
    by (simp add: msPerDay_def)
  have "(k * msPerDay + x) div 60000 = (k * 24) * 60 + x div 60000"
    unfolding e by (rule div_mult_self3) simp
  then show ?thesis
    unfolding MinFromTime_def using mod_mult_self3 [of "k * 24" 60 "x div 60000"] by simp
qed

lemma time_of_day_kept:
  "HourFromTime (MakeDate day (TimeWithinDay t)) = HourFromTime t"
  "MinFromTime (MakeDate day (TimeWithinDay t)) = MinFromTime t"
proof -
  have "HourFromTime t = HourFromTime (Day t * msPerDay + TimeWithinDay t)"
    "MinFromTime t = MinFromTime (Day t * msPerDay + TimeWithinDay t)"
    by (simp_all only: time_split)
  then show "HourFromTime (MakeDate day (TimeWithinDay t)) = HourFromTime t"
    "MinFromTime (MakeDate day (TimeWithinDay t)) = MinFromTime t"
    by (simp_all only: MakeDate_def HourFromTime_shift MinFromTime_shift)
qed

lemma hour_minute_bounds:
  "0 \<le> HourFromTime t" "HourFromTime t \<le> 23" "0 \<le> MinFromTime t" "MinFromTime t \<le> 59"
proof -
  have "0 \<le> (t div 3600000) mod 24" "(t div 3600000) mod 24 < 24"
    "0 \<le> (t div 60000) mod 60" "(t div 60000) mod 60 < 60"
    by (rule pos_mod_sign pos_mod_bound; simp)+
  then show "0 \<le> HourFromTime t" "HourFromTime t \<le> 23" "0 \<le> MinFromTime t"
    "MinFromTime t \<le> 59"
    unfolding HourFromTime_def MinFromTime_def by simp_all
qed

lemma local_round_trip: "LocalTime h (UTC h x) = x" "UTC h (LocalTime h x) = x"
  by (simp_all add: LocalTime_def UTC_def)

lemma advance_calendarStep:
  assumes f: "frequency = ''weekly'' \<or> frequency = ''monthly'' \<or> frequency = ''quarterly''
      \<or> frequency = ''yearly''"
    and s: "calendarStep frequency (YearFromTime (LocalTime h t), MonthFromTime (LocalTime h t),
        DateFromTime (LocalTime h t)) = (y', m', d')"
  shows "advance h frequency (Some t)
    = Some (TimeClip (UTC h (MakeDate (MakeDay y' m' d') (TimeWithinDay (LocalTime h t)))))"
  using f s
  by (elim disjE)
    (auto simp: advance_def calendarStep_def setDate_def setMonth_def setFullYear_def
      getDate_def getMonth_def getFullYear_def plusNum_def Let_def)

lemma advance_unrecognised:
  assumes "frequency \<noteq> ''weekly''" "frequency \<noteq> ''monthly''" "frequency \<noteq> ''quarterly''"
    "frequency \<noteq> ''yearly''"
  shows "advance h frequency date = None"
  using assms by (simp add: advance_def)

lemma advance_recognised:
  assumes "frequency = ''weekly'' \<or> frequency = ''monthly'' \<or> frequency = ''quarterly''
      \<or> frequency = ''yearly''"
  shows "\<exists>date'. advance h frequency date = Some date'"
  using assms by (elim disjE) (simp_all add: advance_def)

lemma advance_NaN: "advance h frequency None = Some date' \<Longrightarrow> date' = None"
  by (auto simp: advance_def setDate_def setMonth_def setFullYear_def getFullYear_def plusNum_def
      split: if_splits)

lemma showNat_digits:
  "n < 10 \<Longrightarrow> showNat n = [digitChar n]"
  "10 \<le> n \<Longrightarrow> n < 100 \<Longrightarrow> showNat n = [digitChar (n div 10), digitChar (n mod 10)]"
proof -
  show "n < 10 \<Longrightarrow> showNat n = [digitChar n]"
    by (simp add: showNat.simps)
  assume "10 \<le> n" "n < 100"
  then have "n div 10 < 10" "\<not> n < 10" by simp_all
  then show "showNat n = [digitChar (n div 10), digitChar (n mod 10)]"
    by (simp add: showNat.simps [of n] showNat.simps [of "n div 10"])
qed


lemma pad_twoDigits:
  assumes "0 \<le> n" "n \<le> 99"
  shows "pad (Some n) = twoDigits n"
proof (cases "nat n < 10")
  case True
  then have "nat n div 10 = 0" "nat n mod 10 = nat n" by simp_all
  then show ?thesis
    using True assms
    by (simp add: pad_def numToString_def showInt_def showNat_digits(1) padStart_def
        twoDigits_def digitChar_def)
next
  case False
  then have "10 \<le> nat n" "nat n < 100" using assms by simp_all
  then show ?thesis
    using assms
    by (simp add: pad_def numToString_def showInt_def showNat_digits(2) padStart_def
        twoDigits_def)
qed

lemma formatLocal_valid:
  assumes "0 \<le> YearFromTime (LocalTime h t)"
  shows "formatLocal h (Some t)
           = showNat (nat (YearFromTime (LocalTime h t))) @ ''-''
             @ twoDigits (MonthFromTime (LocalTime h t) + 1) @ ''-''
             @ twoDigits (DateFromTime (LocalTime h t)) @ ''T''
             @ twoDigits (HourFromTime (LocalTime h t)) @ '':''
             @ twoDigits (MinFromTime (LocalTime h t))"
proof -
  let ?lt = "LocalTime h t"
  have m: "pad (Some (MonthFromTime ?lt + 1)) = twoDigits (MonthFromTime ?lt + 1)"
    using MonthFromTime_bounds [of ?lt] by (intro pad_twoDigits) simp_all
  have d: "pad (Some (DateFromTime ?lt)) = twoDigits (DateFromTime ?lt)"
    using DateFromTime_bounds [of ?lt] by (intro pad_twoDigits) simp_all
  have hh: "pad (Some (HourFromTime ?lt)) = twoDigits (HourFromTime ?lt)"
    using hour_minute_bounds(1,2) [of ?lt] by (intro pad_twoDigits) simp_all
  have mi: "pad (Some (MinFromTime ?lt)) = twoDigits (MinFromTime ?lt)"
    using hour_minute_bounds(3,4) [of ?lt] by (intro pad_twoDigits) simp_all
  show ?thesis
    using assms
    by (simp add: formatLocal_def getFullYear_def getMonth_def getDate_def getHours_def
        getMinutes_def plusNum_def numToString_def showInt_def m d hh mi)
qed

lemma formatLocal_NaN: "formatLocal h None = ''NaN-NaN-NaNTNaN:NaN''"
  by (simp add: formatLocal_def getFullYear_def getMonth_def getDate_def getHours_def
      getMinutes_def plusNum_def numToString_def pad_def padStart_def)

lemma advance_Some_cases:
  assumes "advance h frequency date = Some date'"
  shows "frequency = ''weekly'' \<or> frequency = ''monthly'' \<or> frequency = ''quarterly''
      \<or> frequency = ''yearly''"
  using assms by (auto simp: advance_def split: if_splits)

lemma advance_local:
  assumes "advance h frequency (Some t) = Some (Some t')"
  shows "\<exists>day. LocalTime h t' = MakeDate day (TimeWithinDay (LocalTime h t))"
proof -
  note f = advance_Some_cases [OF assms]
  obtain y' m' d' where s: "calendarStep frequency (YearFromTime (LocalTime h t),
      MonthFromTime (LocalTime h t), DateFromTime (LocalTime h t)) = (y', m', d')"
    by (cases "calendarStep frequency (YearFromTime (LocalTime h t),
      MonthFromTime (LocalTime h t), DateFromTime (LocalTime h t))") auto
  have "TimeClip (UTC h (MakeDate (MakeDay y' m' d') (TimeWithinDay (LocalTime h t)))) = Some t'"
    using advance_calendarStep [OF f s] assms by simp
  then have "t' = UTC h (MakeDate (MakeDay y' m' d') (TimeWithinDay (LocalTime h t)))"
    by (simp add: TimeClip_def split: if_splits)
  then have "LocalTime h t' = MakeDate (MakeDay y' m' d') (TimeWithinDay (LocalTime h t))"
    by (simp add: local_round_trip)
  then show ?thesis by blast
qed

subsection \<open>The result of \<open>calculateNextContact\<close>\<close>

lemma next_contact_string:
  assumes ne: "lastContacted \<noteq> []"
    and p: "parseDate h lastContacted = Some t"
    and a: "advance h frequency (Some t) = Some (Some t')"
    and y: "0 \<le> YearFromTime (LocalTime h t')"
  shows "calculateNextContact h lastContacted frequency
           = Some (showNat (nat (YearFromTime (LocalTime h t'))) @ ''-''
                 @ twoDigits (MonthFromTime (LocalTime h t') + 1) @ ''-''
                 @ twoDigits (DateFromTime (LocalTime h t')) @ ''T''
                 @ twoDigits (HourFromTime (LocalTime h t)) @ '':''
                 @ twoDigits (MinFromTime (LocalTime h t)))"
proof -
  have f: "frequency \<noteq> []"
    using advance_Some_cases [OF a] by auto
  obtain day where "LocalTime h t' = MakeDate day (TimeWithinDay (LocalTime h t))"
    using advance_local [OF a] by blast
  then have keep: "HourFromTime (LocalTime h t') = HourFromTime (LocalTime h t)"
    "MinFromTime (LocalTime h t') = MinFromTime (LocalTime h t)"
    by (simp_all add: time_of_day_kept)
  have "calculateNextContact h lastContacted frequency = Some (formatLocal h (Some t'))"
    using ne f p a by (simp add: calculateNextContact_def)
  then show ?thesis
    using y by (simp add: formatLocal_valid keep)
qed

lemma next_contact_NaN:
  assumes "lastContacted \<noteq> []" and "parseDate h lastContacted = None"
    and "frequency = ''weekly'' \<or> frequency = ''monthly'' \<or> frequency = ''quarterly''
      \<or> frequency = ''yearly''"
  shows "calculateNextContact h lastContacted frequency = Some ''NaN-NaN-NaNTNaN:NaN''"
proof -
  obtain date' where d: "advance h frequency None = Some date'"
    using advance_recognised [OF assms(3)] by blast
  then have "date' = None" by (rule advance_NaN)
  with d assms show ?thesis
    by (auto simp: calculateNextContact_def formatLocal_NaN)
qed

lemma calculateNextContact_None_iff:
  "calculateNextContact h lastContacted frequency = None \<longleftrightarrow>
     lastContacted = [] \<or> frequency = []
     \<or> (frequency \<noteq> ''weekly'' \<and> frequency \<noteq> ''monthly'' \<and> frequency \<noteq> ''quarterly''
         \<and> frequency \<noteq> ''yearly'')"
  by (auto simp: calculateNextContact_def advance_def)

lemmas parser_defs = sampleHost_def isoParse_def isoTail_def isoSeconds_def field_def digitVal_def

lemmas make_defs = TimeClip_def MakeDate_def MakeDay_def MakeTime_def DayFromYear_def
  DaysInYear_def monthStart_def msPerDay_def Let_def

lemmas field_defs = LocalTime_def UTC_def YearFromTime_def YearFromDay_def Day_def
  TimeWithinDay_def MonthFromTime_def DateFromTime_def DayWithinYear_def InLeapYear_def
  HourFromTime_def MinFromTime_def SecFromTime_def msFromTime_def DayFromYear_def DaysInYear_def
  monthStart_def msPerDay_def Let_def

lemma sample_parse:
  "parseDate sampleHost ''2025-04-24T09:28'' = Some 1745483280000"
  "parseDate sampleHost ''2025-01-31T10:00'' = Some 1738314000000"
  "parseDate sampleHost ''0998-12-31T23:30'' = Some (- 30641765400000)"
  "parseDate sampleHost ''+275760-09-13T00:00:00.000Z'' = Some 8640000000000000"
  by (simp add: parser_defs, simp add: make_defs)+

lemma sample_parse_NaN:
  "parseDate sampleHost ''soon'' = None"
  "parseDate sampleHost ''not a date'' = None"
  by (simp_all add: sampleHost_def isoParse_def)

lemma sample_clock:
  "pad (getHours sampleHost (Some 1767268800000)) @ '':''
     @ pad (getMinutes sampleHost (Some 1767268800000)) = ''13:00''"
proof -
  have "HourFromTime (LocalTime sampleHost 1767268800000) = 13"
    "MinFromTime (LocalTime sampleHost 1767268800000) = 0"
    by (simp_all add: field_defs sampleHost_def)
  then show ?thesis
    by (simp add: getHours_def getMinutes_def pad_twoDigits twoDigits_def digitChar_def)
qed

lemma sample_showNat: "showNat 2025 = ''2025''" "showNat 999 = ''999''" "showNat 2026 = ''2026''"
  by code_simp+

lemma sample_advance:
  "advance sampleHost ''weekly'' (Some 1745483280000) = Some (Some 1746088080000)"
  "advance sampleHost ''monthly'' (Some 1738314000000) = Some (Some 1740992400000)"
  "advance sampleHost ''weekly'' (Some (- 30641765400000)) = Some (Some (- 30641160600000))"
  "advance sampleHost ''weekly'' (Some 8640000000000000) = Some None"
proof -
  have a: "calendarStep ''weekly'' (YearFromTime (LocalTime sampleHost 1745483280000),
      MonthFromTime (LocalTime sampleHost 1745483280000),
      DateFromTime (LocalTime sampleHost 1745483280000)) = (2025, 3, 31)"
    by (simp add: calendarStep_def field_defs sampleHost_def)
  have "advance sampleHost ''weekly'' (Some 1745483280000)
    = Some (TimeClip (UTC sampleHost (MakeDate (MakeDay 2025 3 31)
        (TimeWithinDay (LocalTime sampleHost 1745483280000)))))"
    by (rule advance_calendarStep [OF _ a]) simp
  then show "advance sampleHost ''weekly'' (Some 1745483280000) = Some (Some 1746088080000)"
    by (simp add: make_defs field_defs sampleHost_def)
  have b: "calendarStep ''monthly'' (YearFromTime (LocalTime sampleHost 1738314000000),
      MonthFromTime (LocalTime sampleHost 1738314000000),
      DateFromTime (LocalTime sampleHost 1738314000000)) = (2025, 1, 31)"
    by (simp add: calendarStep_def field_defs sampleHost_def)
  have "advance sampleHost ''monthly'' (Some 1738314000000)
    = Some (TimeClip (UTC sampleHost (MakeDate (MakeDay 2025 1 31)
        (TimeWithinDay (LocalTime sampleHost 1738314000000)))))"
    by (rule advance_calendarStep [OF _ b]) simp
  then show "advance sampleHost ''monthly'' (Some 1738314000000) = Some (Some 1740992400000)"
    by (simp add: make_defs field_defs sampleHost_def)
  have c: "calendarStep ''weekly'' (YearFromTime (LocalTime sampleHost (- 30641765400000)),
      MonthFromTime (LocalTime sampleHost (- 30641765400000)),
      DateFromTime (LocalTime sampleHost (- 30641765400000))) = (998, 11, 38)"
    by (simp add: calendarStep_def field_defs sampleHost_def)
  have "advance sampleHost ''weekly'' (Some (- 30641765400000))
    = Some (TimeClip (UTC sampleHost (MakeDate (MakeDay 998 11 38)
        (TimeWithinDay (LocalTime sampleHost (- 30641765400000))))))"
    by (rule advance_calendarStep [OF _ c]) simp
  then show "advance sampleHost ''weekly'' (Some (- 30641765400000))
      = Some (Some (- 30641160600000))"
    by (simp add: make_defs field_defs sampleHost_def)
  have d: "calendarStep ''weekly'' (YearFromTime (LocalTime sampleHost 8640000000000000),
      MonthFromTime (LocalTime sampleHost 8640000000000000),
      DateFromTime (LocalTime sampleHost 8640000000000000)) = (275760, 8, 20)"
    by (simp add: calendarStep_def field_defs sampleHost_def)
  have "advance sampleHost ''weekly'' (Some 8640000000000000)
    = Some (TimeClip (UTC sampleHost (MakeDate (MakeDay 275760 8 20)
        (TimeWithinDay (LocalTime sampleHost 8640000000000000)))))"
    by (rule advance_calendarStep [OF _ d]) simp
  then show "advance sampleHost ''weekly'' (Some 8640000000000000) = Some None"
    by (simp add: make_defs field_defs sampleHost_def)
qed

lemma sample_results:
  "calculateNextContact sampleHost ''2025-04-24T09:28'' ''weekly'' = Some ''2025-05-01T09:28''"
  "calculateNextContact sampleHost ''2025-01-31T10:00'' ''monthly'' = Some ''2025-03-03T10:00''"
  "calculateNextContact sampleHost ''0998-12-31T23:30'' ''weekly'' = Some ''999-01-07T23:30''"
  "calculateNextContact sampleHost ''+275760-09-13T00:00:00.000Z'' ''weekly''
     = Some ''NaN-NaN-NaNTNaN:NaN''"
  "calculateNextContact sampleHost ''soon'' ''weekly'' = Some ''NaN-NaN-NaNTNaN:NaN''"
proof -
  have "0 \<le> YearFromTime (LocalTime sampleHost 1746088080000)"
    by (simp add: field_defs sampleHost_def)
  from next_contact_string [OF _ sample_parse(1) sample_advance(1) this]
  show "calculateNextContact sampleHost ''2025-04-24T09:28'' ''weekly'' = Some ''2025-05-01T09:28''"
    by (simp add: field_defs sampleHost_def twoDigits_def digitChar_def sample_showNat)
  have "0 \<le> YearFromTime (LocalTime sampleHost 1740992400000)"
    by (simp add: field_defs sampleHost_def)
  from next_contact_string [OF _ sample_parse(2) sample_advance(2) this]
  show "calculateNextContact sampleHost ''2025-01-31T10:00'' ''monthly'' = Some ''2025-03-03T10:00''"
    by (simp add: field_defs sampleHost_def twoDigits_def digitChar_def sample_showNat)
  have "0 \<le> YearFromTime (LocalTime sampleHost (- 30641160600000))"
    by (simp add: field_defs sampleHost_def)
  from next_contact_string [OF _ sample_parse(3) sample_advance(3) this]
  show "calculateNextContact sampleHost ''0998-12-31T23:30'' ''weekly'' = Some ''999-01-07T23:30''"
    by (simp add: field_defs sampleHost_def twoDigits_def digitChar_def sample_showNat)
  show "calculateNextContact sampleHost ''+275760-09-13T00:00:00.000Z'' ''weekly''
     = Some ''NaN-NaN-NaNTNaN:NaN''"
    by (simp add: calculateNextContact_def sample_parse(4) sample_advance(4) formatLocal_NaN)
  show "calculateNextContact sampleHost ''soon'' ''weekly'' = Some ''NaN-NaN-NaNTNaN:NaN''"
    by (rule next_contact_NaN [OF _ sample_parse_NaN(1)]) simp_all
qed



lemma sample_clock_local: "formatLocal sampleHost (Some 1767268800000) = ''2026-01-01T13:00''"
proof -
  have "0 \<le> YearFromTime (LocalTime sampleHost 1767268800000)"
    by (simp add: field_defs sampleHost_def)
  then have "formatLocal sampleHost (Some 1767268800000)
    = showNat (nat (YearFromTime (LocalTime sampleHost 1767268800000))) @ ''-''
        @ twoDigits (MonthFromTime (LocalTime sampleHost 1767268800000) + 1) @ ''-''
        @ twoDigits (DateFromTime (LocalTime sampleHost 1767268800000)) @ ''T''
        @ twoDigits (HourFromTime (LocalTime sampleHost 1767268800000)) @ '':''
        @ twoDigits (MinFromTime (LocalTime sampleHost 1767268800000))"
    by (simp add: formatLocal_valid)
  then show ?thesis
    by (simp add: field_defs sampleHost_def twoDigits_def digitChar_def sample_showNat)
qed

lemma sample_clock_iso: "toISOString 1767268800000 = ''2026-01-01T12:00:00.000Z''"
proof -
  have "YearFromTime 1767268800000 = 2026" "MonthFromTime 1767268800000 = 0"
    "DateFromTime 1767268800000 = 1" "HourFromTime 1767268800000 = 12"
    "MinFromTime 1767268800000 = 0" "SecFromTime 1767268800000 = 0"
    "msFromTime 1767268800000 = 0"
    by (simp_all add: field_defs)
  moreover have "showInt 0 = ''0''"
    by code_simp
  ultimately show ?thesis
    by (simp add: toISOString_def pad_twoDigits twoDigits_def digitChar_def sample_showNat
        padStart_def numeral_2_eq_2)
qed

lemma markAsContacted_last_contacted:
  "last_contacted (snd (markAsContacted h contactsFolder clock v contact originalName))
     = Some ''2025-04-24T09:28''"
  by (simp add: markAsContacted_def Let_def split: option.splits)

lemma sample_mark:
  "markAsContacted sampleHost ''Contacts'' 1767268800000 sampleVault
      ((sampleContact ''Bob Old'')\<lparr>contact_frequency := Some ''weekly''\<rparr>) (Some ''Bob Old'')
    = ((Inr (),
        [TFolder ''Contacts'',
         TFile ''Contacts/Bob-Old.md''
           (fileContent ((sampleContact ''Bob Old'')
              \<lparr>modified := Some ''2026-01-01T12:00:00.000Z'',
               last_contacted := Some ''2025-04-24T09:28'',
               next_contact := Some ''2025-05-01T09:28'',
               contact_frequency := Some ''weekly''\<rparr>))
           3 1767268800000]),
       (sampleContact ''Bob Old'')
         \<lparr>last_contacted := Some ''2025-04-24T09:28'',
          next_contact := Some ''2025-05-01T09:28'',
          contact_frequency := Some ''weekly''\<rparr>)"
proof -
  define c where "c = (sampleContact ''Bob Old'')
         \<lparr>modified := Some ''2026-01-01T12:00:00.000Z'',
          last_contacted := Some ''2025-04-24T09:28'',
          next_contact := Some ''2025-05-01T09:28'',
          contact_frequency := Some ''weekly''\<rparr>"
  have n: "name c = Some ''Bob Old''"
    by (simp add: c_def sampleContact_def)
  have f: "getAbstractFileByPath sampleVault (filePath ''Contacts'' ''Bob Old'')
      = Some (TFile (filePath ''Contacts'' ''Bob Old'')
                (fileContent (sampleContact ''Bob Old'')) 3 3)"
    by (simp add: getAbstractFileByPath_def sampleVault_def filePath_def sanitize_def
        isAlnum_def)
  have p: "filePath ''Contacts'' ''Bob Old'' = ''Contacts/Bob-Old.md''"
    by (simp add: filePath_def sanitize_def isAlnum_def)
  have u: "updateContact ''Contacts'' 1767268800000 sampleVault c (Some ''Bob Old'')
      = (Inr (), [TFolder ''Contacts'',
           TFile ''Contacts/Bob-Old.md'' (fileContent c) 3 1767268800000])"
    unfolding update_in_place [OF n refl f]
    by (simp add: modify_def sampleVault_def p)
  have "markAsContacted sampleHost ''Contacts'' 1767268800000 sampleVault
      ((sampleContact ''Bob Old'')\<lparr>contact_frequency := Some ''weekly''\<rparr>) (Some ''Bob Old'')
    = (updateContact ''Contacts'' 1767268800000 sampleVault c (Some ''Bob Old''),
       (sampleContact ''Bob Old'')
         \<lparr>last_contacted := Some ''2025-04-24T09:28'',
          next_contact := Some ''2025-05-01T09:28'',
          contact_frequency := Some ''weekly''\<rparr>)"
    by (simp add: markAsContacted_def Let_def sample_results(1) sample_clock_iso c_def
        sampleContact_def)
  then show ?thesis
    unfolding u by (simp add: c_def)
qed

subsection \<open>The format of the next contact\<close>




subsection \<open>A last contact that is no timestamp\<close>

text \<open>
  Claim C3. \<open>calculateNextContact\<close> returns \<open>undefined\<close> exactly when an input is empty
  or the frequency is not one of the four (\<open>calculateNextContact_None_iff\<close>). A
  \<open>lastContacted\<close> that the host cannot parse is not among these: \<open>not a date\<close> with
  \<open>weekly\<close> returns the text \<open>NaN-NaN-NaNTNaN:NaN\<close>.
\<close>

theorem calculateNextContact_unrecognised_timestamp:
  "parseDate sampleHost ''not a date'' = None
   \<and> calculateNextContact sampleHost ''not a date'' ''weekly'' = Some ''NaN-NaN-NaNTNaN:NaN''"
proof -
  have "calculateNextContact sampleHost ''not a date'' ''weekly'' = Some ''NaN-NaN-NaNTNaN:NaN''"
    by (rule next_contact_NaN [OF _ sample_parse_NaN(2)]) simp_all
  then show ?thesis
    by (simp only: sample_parse_NaN(2) simp_thms)
qed

subsection \<open>Mark as Contacted\<close>

text \<open>
  Claim C4. The click handler of \<open>Mark as Contacted\<close> writes the constant
  \<open>2025-04-24T09:28\<close> to \<open>last_contacted\<close>, whatever the clock reads
  (\<open>markAsContacted_last_contacted\<close>). Clicked at 2026-01-01T12:00:00.000Z, 13:00 local
  time, on the contact \<open>Bob Old\<close> with frequency \<open>weekly\<close>: the form's contact and the
  file written by \<open>updateContact\<close> have \<open>last_contacted\<close> 2025-04-24T09:28 and
  \<open>next_contact\<close> 2025-05-01T09:28, computed from the constant; only \<open>modified\<close> and
  the file's time come from the clock.
\<close>

theorem markAsContacted_constant:
  "formatLocal sampleHost (Some 1767268800000) = ''2026-01-01T13:00''
   \<and> toISOString 1767268800000 = ''2026-01-01T12:00:00.000Z''
   \<and> markAsContacted sampleHost ''Contacts'' 1767268800000 sampleVault
      ((sampleContact ''Bob Old'')\<lparr>contact_frequency := Some ''weekly''\<rparr>) (Some ''Bob Old'')
    = ((Inr (),
        [TFolder ''Contacts'',
         TFile ''Contacts/Bob-Old.md''
           (fileContent ((sampleContact ''Bob Old'')
              \<lparr>modified := Some ''2026-01-01T12:00:00.000Z'',
               last_contacted := Some ''2025-04-24T09:28'',
               next_contact := Some ''2025-05-01T09:28'',
               contact_frequency := Some ''weekly''\<rparr>))
           3 1767268800000]),
       (sampleContact ''Bob Old'')
         \<lparr>last_contacted := Some ''2025-04-24T09:28'',
          next_contact := Some ''2025-05-01T09:28'',
          contact_frequency := Some ''weekly''\<rparr>)"
  by (simp only: sample_clock_local sample_clock_iso sample_mark simp_thms)

subsection \<open>The next contact is later\<close>




end
